theory Spec2Isabelle
  imports Main "HOL-Library.Word" "HOL-Library.AList"
begin

unbundle bit_operations_syntax

section \<open>The compression cache of astro-compress\<close>

text \<open>
  This theory embeds \<^verbatim>\<open>src/CompressionCache.ts\<close>: the class
  \<^verbatim>\<open>CompressionCacheManagerImpl\<close> with its manifest, and the library calls it
  makes (\<^verbatim>\<open>createHash('sha256')\<close>, \<^verbatim>\<open>path.join\<close>, \<^verbatim>\<open>JSON.stringify\<close>, the
  \<^verbatim>\<open>fs\<close> calls). Buffers and strings are \<^typ>\<open>string\<close>: lists of bytes.
\<close>

subsection \<open>The content hash: \<^verbatim>\<open>createHash('sha256').update(b).digest('hex')\<close>\<close>

text \<open>SHA-256 as in FIPS 180-4, on 32-bit words, with the digest printed in lower-case hex.\<close>

definition Ch :: "32 word \<Rightarrow> 32 word \<Rightarrow> 32 word \<Rightarrow> 32 word" where
  "Ch x y z = (x AND y) XOR (NOT x AND z)"

definition Maj :: "32 word \<Rightarrow> 32 word \<Rightarrow> 32 word \<Rightarrow> 32 word" where
  "Maj x y z = (x AND y) XOR (x AND z) XOR (y AND z)"

definition rotr :: "nat \<Rightarrow> 32 word \<Rightarrow> 32 word" where
  "rotr n x = drop_bit n x OR push_bit (32 - n) x"

definition bsig0 :: "32 word \<Rightarrow> 32 word" where
  "bsig0 x = rotr 2 x XOR rotr 13 x XOR rotr 22 x"

definition bsig1 :: "32 word \<Rightarrow> 32 word" where
  "bsig1 x = rotr 6 x XOR rotr 11 x XOR rotr 25 x"

definition ssig0 :: "32 word \<Rightarrow> 32 word" where
  "ssig0 x = rotr 7 x XOR rotr 18 x XOR drop_bit 3 x"

definition ssig1 :: "32 word \<Rightarrow> 32 word" where
  "ssig1 x = rotr 17 x XOR rotr 19 x XOR drop_bit 10 x"

definition K256 :: "32 word list" where
  "K256 =
    [0x428A2F98, 0x71374491, 0xB5C0FBCF, 0xE9B5DBA5, 0x3956C25B, 0x59F111F1, 0x923F82A4, 0xAB1C5ED5,
     0xD807AA98, 0x12835B01, 0x243185BE, 0x550C7DC3, 0x72BE5D74, 0x80DEB1FE, 0x9BDC06A7, 0xC19BF174,
     0xE49B69C1, 0xEFBE4786, 0x0FC19DC6, 0x240CA1CC, 0x2DE92C6F, 0x4A7484AA, 0x5CB0A9DC, 0x76F988DA,
     0x983E5152, 0xA831C66D, 0xB00327C8, 0xBF597FC7, 0xC6E00BF3, 0xD5A79147, 0x06CA6351, 0x14292967,
     0x27B70A85, 0x2E1B2138, 0x4D2C6DFC, 0x53380D13, 0x650A7354, 0x766A0ABB, 0x81C2C92E, 0x92722C85,
     0xA2BFE8A1, 0xA81A664B, 0xC24B8B70, 0xC76C51A3, 0xD192E819, 0xD6990624, 0xF40E3585, 0x106AA070,
     0x19A4C116, 0x1E376C08, 0x2748774C, 0x34B0BCB5, 0x391C0CB3, 0x4ED8AA4A, 0x5B9CCA4F, 0x682E6FF3,
     0x748F82EE, 0x78A5636F, 0x84C87814, 0x8CC70208, 0x90BEFFFA, 0xA4506CEB, 0xBEF9A3F7, 0xC67178F2]"

definition H256 :: "32 word list" where
  "H256 = [0x6A09E667, 0xBB67AE85, 0x3C6EF372, 0xA54FF53A,
           0x510E527F, 0x9B05688C, 0x1F83D9AB, 0x5BE0CD19]"

definition be64 :: "64 word \<Rightarrow> 32 word list" where
  "be64 n = map (\<lambda>i. ucast (drop_bit (8 * (7 - i)) n AND 0xff)) [0..<8]"

text \<open>The padded message, one byte per list element.\<close>

definition sha_pad :: "string \<Rightarrow> 32 word list" where
  "sha_pad m =
     (let l = length m; k = (119 - l mod 64) mod 64
      in map of_char m @ [0x80] @ replicate k 0 @ be64 (of_nat l * 8))"

fun be_words :: "32 word list \<Rightarrow> 32 word list" where
  "be_words (a # b # c # d # bs) =
     (((a * 256 + b) * 256 + c) * 256 + d) # be_words bs"
| "be_words _ = []"

function blocks :: "'a list \<Rightarrow> 'a list list" where
  "blocks ws = (if ws = [] then [] else take 16 ws # blocks (drop 16 ws))"
  by pat_completeness auto
termination
  by (relation "measure length") auto

fun schedule :: "nat \<Rightarrow> 32 word list \<Rightarrow> 32 word list" where
  "schedule 0 w = w"
| "schedule (Suc k) w =
     (let n = length w
      in schedule k (w @ [ssig1 (w ! (n - 2)) + w ! (n - 7) + ssig0 (w ! (n - 15)) + w ! (n - 16)]))"

fun round256 :: "32 word list \<Rightarrow> 32 word \<times> 32 word \<Rightarrow> 32 word list" where
  "round256 [a, b, c, d, e, f, g, h] (k, w) =
     (let t1 = h + bsig1 e + Ch e f g + k + w;
          t2 = bsig0 a + Maj a b c
      in [t1 + t2, a, b, c, d + t1, e, f, g])"
| "round256 v _ = v"

definition compress :: "32 word list \<Rightarrow> 32 word list \<Rightarrow> 32 word list" where
  "compress hs block = map2 (+) hs (foldl round256 hs (zip K256 (schedule 48 block)))"

definition sha256 :: "string \<Rightarrow> 32 word list" where
  "sha256 m = foldl compress H256 (blocks (be_words (sha_pad m)))"

definition hexdigit :: "nat \<Rightarrow> char" where
  "hexdigit n = ''0123456789abcdef'' ! (n mod 16)"

definition hex32 :: "32 word \<Rightarrow> string" where
  "hex32 w = map (\<lambda>i. hexdigit (unat (drop_bit (4 * (7 - i)) w AND 0xf))) [0..<8]"

definition sha256_hex :: "string \<Rightarrow> string" where
  "sha256_hex m = concat (map hex32 (sha256 m))"

subsection \<open>JSON values and \<^verbatim>\<open>JSON.stringify\<close>\<close>

text \<open>
  Modelled from the spec: the type \<^verbatim>\<open>UsedFormatConfig\<close> of an entry's settings, whose
  declaration (\<^verbatim>\<open>./types\<close>) is not among the sources. The specification calls the
  settings an opaque JSON value of caller-defined shape, which the cache only ever
  serialises. An object keeps its members in the order in which JavaScript enumerates
  them (insertion order, for keys that are not array indices), because
  \<^verbatim>\<open>JSON.stringify\<close> follows that order. Numbers are integers.
\<close>

datatype json =
    JNull
  | JBool bool
  | JNum int
  | JStr string
  | JArr "json list"
  | JObj "(string \<times> json) list"

definition dquote :: char where "dquote = CHR 0x22"
definition backslash :: char where "backslash = CHR 0x5C"
definition newline :: char where "newline = CHR 0x0A"

fun join_with :: "string \<Rightarrow> string list \<Rightarrow> string" where
  "join_with sep [] = []"
| "join_with sep [x] = x"
| "join_with sep (x # y # ys) = x @ sep @ join_with sep (y # ys)"

function digits :: "int \<Rightarrow> string" where
  "digits n =
     (if n < 10 then [hexdigit (nat n)] else digits (n div 10) @ [hexdigit (nat (n mod 10))])"
  by pat_completeness auto
termination
  by (relation "measure nat") auto

definition show_int :: "int \<Rightarrow> string" where
  "show_int i = (if i < 0 then CHR ''-'' # digits (- i) else digits i)"

text \<open>\<^verbatim>\<open>QuoteJSONString\<close> of ECMA-262, on bytes.\<close>

definition escape :: "char \<Rightarrow> string" where
  "escape c =
     (if c = dquote then [backslash, dquote]
      else if c = backslash then [backslash, backslash]
      else if c = CHR 0x08 then [backslash, CHR ''b'']
      else if c = CHR 0x09 then [backslash, CHR ''t'']
      else if c = CHR 0x0A then [backslash, CHR ''n'']
      else if c = CHR 0x0C then [backslash, CHR ''f'']
      else if c = CHR 0x0D then [backslash, CHR ''r'']
      else if (of_char c :: nat) < 32
        then [backslash, CHR ''u'', CHR ''0'', CHR ''0'',
              hexdigit (of_char c div 16), hexdigit (of_char c)]
      else [c])"

definition quote :: "string \<Rightarrow> string" where
  "quote s = [dquote] @ concat (map escape s) @ [dquote]"

text \<open>
  \<^verbatim>\<open>SerializeJSONProperty\<close> with its two list cases, for a gap \<open>gap\<close> and the current
  indentation \<open>indent\<close>. \<^verbatim>\<open>JSON.stringify(v)\<close> has the empty gap,
  \<^verbatim>\<open>JSON.stringify(v, null, 2)\<close> a gap of two spaces.
\<close>

fun Str :: "string \<Rightarrow> string \<Rightarrow> json \<Rightarrow> string" where
  "Str gap indent JNull = ''null''"
| "Str gap indent (JBool b) = (if b then ''true'' else ''false'')"
| "Str gap indent (JNum n) = show_int n"
| "Str gap indent (JStr s) = quote s"
| "Str gap indent (JArr vs) =
     (let stepback = indent; indent = indent @ gap;
          partial = map (Str gap indent) vs
      in if partial = [] then ''[]''
         else if gap = [] then ''['' @ join_with '','' partial @ '']''
         else ''['' @ [newline] @ indent @ join_with ('','' @ [newline] @ indent) partial
              @ [newline] @ stepback @ '']'')"
| "Str gap indent (JObj kvs) =
     (let stepback = indent; indent = indent @ gap;
          partial = map (\<lambda>(k, v). quote k @ '':'' @ (if gap = [] then [] else '' '')
                                  @ Str gap indent v) kvs
      in if partial = [] then ''{}''
         else if gap = [] then ''{'' @ join_with '','' partial @ ''}''
         else ''{'' @ [newline] @ indent @ join_with ('','' @ [newline] @ indent) partial
              @ [newline] @ stepback @ ''}'')"

definition stringify :: "json \<Rightarrow> string" where
  "stringify v = Str [] [] v"

definition stringify2 :: "json \<Rightarrow> string" where
  "stringify2 v = Str ''  '' [] v"

subsection \<open>\<^verbatim>\<open>String.prototype.split\<close> and \<^verbatim>\<open>path.join\<close> (POSIX)\<close>

fun split_on :: "char \<Rightarrow> string \<Rightarrow> string list" where
  "split_on c [] = [[]]"
| "split_on c (x # xs) =
     (if x = c then [] # split_on c xs
      else (case split_on c xs of [] \<Rightarrow> [[x]] | p # ps \<Rightarrow> (x # p) # ps))"

text \<open>
  \<^verbatim>\<open>normalizeString\<close> of Node's \<^verbatim>\<open>path\<close> module walks the segments between slashes
  and keeps a stack of the segments retained so far.
\<close>

definition norm_step :: "bool \<Rightarrow> string list \<Rightarrow> string \<Rightarrow> string list" where
  "norm_step allowAboveRoot res seg =
     (if seg = [] \<or> seg = ''.'' then res
      else if seg = ''..'' then
        (if res \<noteq> [] \<and> last res \<noteq> ''..'' then butlast res
         else if allowAboveRoot then res @ [''..'']
         else res)
      else res @ [seg])"

definition normalizeString :: "string \<Rightarrow> bool \<Rightarrow> string" where
  "normalizeString path allowAboveRoot =
     join_with ''/'' (foldl (norm_step allowAboveRoot) [] (split_on CHR ''/'' path))"

definition normalize :: "string \<Rightarrow> string" where
  "normalize path =
     (if path = [] then ''.''
      else
        let isAbsolute = (hd path = CHR ''/'');
            trailingSeparator = (last path = CHR ''/'');
            path = normalizeString path (\<not> isAbsolute)
        in if path = [] then (if isAbsolute then ''/'' else if trailingSeparator then ''./'' else ''.'')
           else (if isAbsolute then ''/'' else []) @ path @ (if trailingSeparator then ''/'' else []))"

definition path_join :: "string \<Rightarrow> string \<Rightarrow> string" where
  "path_join a b =
     (let joined = (if a = [] then b else if b = [] then a else a @ ''/'' @ b)
      in if joined = [] then ''.'' else normalize joined)"

text \<open>
  The stack of segments that \<open>normalizeString\<close> is left with for a path: the segments
  of the path after \<^verbatim>\<open>.\<close> and \<^verbatim>\<open>..\<close> have been resolved.
\<close>

definition stack_of :: "string \<Rightarrow> string list" where
  "stack_of path = foldl (norm_step (hd path \<noteq> CHR ''/'')) [] (split_on CHR ''/'' path)"

subsection \<open>The manifest\<close>

record Size =
  original :: nat
  compressed :: nat

record CacheEntry =
  sourceHash :: string
  compressedPath :: string
  timestamp :: int
  settings :: json
  size_bytes :: Size

text \<open>
  \<^verbatim>\<open>entries: Record<string, CacheEntry>\<close> is a JavaScript object used as a dictionary:
  an association list in enumeration order. \<^verbatim>\<open>entries[k]\<close> is \<^const>\<open>map_of\<close>,
  \<^verbatim>\<open>entries[k] = e\<close> is \<^const>\<open>AList.update\<close> (in place for a key that is present,
  at the end otherwise) and \<^verbatim>\<open>delete entries[k]\<close> is \<^const>\<open>AList.delete\<close>. Keys are
  file paths; the names of \<^verbatim>\<open>Object.prototype\<close> members and array-index keys, which
  JavaScript treats specially, are not taken into account.
\<close>

record CompressionCache =
  version :: string
  entries :: "(string \<times> CacheEntry) list"

definition entry_json :: "CacheEntry \<Rightarrow> json" where
  "entry_json e =
     JObj [(''sourceHash'', JStr (sourceHash e)),
           (''compressedPath'', JStr (compressedPath e)),
           (''timestamp'', JNum (timestamp e)),
           (''settings'', settings e),
           (''size'', JObj [(''original'', JNum (int (original (size_bytes e)))),
                            (''compressed'', JNum (int (compressed (size_bytes e))))])]"

definition manifest_json :: "CompressionCache \<Rightarrow> json" where
  "manifest_json m =
     JObj [(''version'', JStr (version m)),
           (''entries'', JObj (map (\<lambda>(k, e). (k, entry_json e)) (entries m)))]"


subsection \<open>The file system and the logger\<close>

text \<open>
  The world outside the manager: the files (a map from path to content), the
  directories that exist, the clock read by \<^verbatim>\<open>Date.now()\<close>, the messages passed to
  \<^verbatim>\<open>logger.error\<close>, the deletions that have been requested with \<^verbatim>\<open>unlink\<close> and have
  not taken place yet, and the list of file-system calls made so far, oldest first.

  A directory is named by whether its path is absolute and by the segments that are
  left of the path when \<^verbatim>\<open>.\<close> and \<^verbatim>\<open>..\<close> are resolved; the root and the working
  directory always exist. A read and a \<^verbatim>\<open>stat\<close> fail when there is no file at the path.
  A write fails with \<^verbatim>\<open>ENOENT\<close> when the directory that is to hold the file does not
  exist, and is recorded in the list of calls either way. \<^verbatim>\<open>mkdirSync\<close> with
  \<^verbatim>\<open>recursive: true\<close> creates the directory and the directories above it. Only
  files are looked up by a read, a \<^verbatim>\<open>stat\<close> and an \<^verbatim>\<open>unlink\<close>: a path that names a
  directory is a path without a file. Permissions, and a file and a directory standing
  in each other's way, are not represented. Debug messages are left out.
\<close>

datatype fs_call =
    ReadFile string
  | WriteFile string string
  | Unlink string
  | Stat string
  | Mkdir string

datatype error =
    ENOENT string string
  | TypeError string
  | SyntaxError

record world =
  files :: "string \<rightharpoonup> string"
  dirs :: "(bool \<times> string list) set"
  now :: int
  errlog :: "string list"
  pending :: "(string \<times> bool) list"
  trace :: "fs_call list"

definition err_text :: "error \<Rightarrow> string" where
  "err_text e =
     (case e of
        ENOENT syscall path \<Rightarrow>
          ''Error: ENOENT: no such file or directory, '' @ syscall @ '' '' @ [CHR 0x27] @ path @ [CHR 0x27]
      | TypeError msg \<Rightarrow> ''TypeError: '' @ msg
      | SyntaxError \<Rightarrow> ''SyntaxError'')"

definition dir_of :: "string \<Rightarrow> bool \<times> string list" where
  "dir_of path = (path \<noteq> [] \<and> hd path = CHR ''/'', stack_of path)"

definition parent_of :: "string \<Rightarrow> bool \<times> string list" where
  "parent_of path = (fst (dir_of path), butlast (snd (dir_of path)))"

definition dir_exists :: "world \<Rightarrow> bool \<times> string list \<Rightarrow> bool" where
  "dir_exists w d = (snd d = [] \<or> d \<in> dirs w)"

text \<open>The directories down to the one with the given segments, that one included.\<close>

fun down_to :: "string list \<Rightarrow> string list list" where
  "down_to [] = []"
| "down_to (x # xs) = [x] # map ((#) x) (down_to xs)"

definition readFileSync :: "string \<Rightarrow> world \<Rightarrow> (error + string) \<times> world" where
  "readFileSync path w =
     ((case files w path of None \<Rightarrow> Inl (ENOENT ''open'' path) | Some b \<Rightarrow> Inr b),
      w\<lparr>trace := trace w @ [ReadFile path]\<rparr>)"

definition writeFileSync :: "string \<Rightarrow> string \<Rightarrow> world \<Rightarrow> (error + unit) \<times> world" where
  "writeFileSync path data w =
     (if dir_exists w (parent_of path)
      then (Inr (), w\<lparr>files := (files w)(path \<mapsto> data), trace := trace w @ [WriteFile path data]\<rparr>)
      else (Inl (ENOENT ''open'' path), w\<lparr>trace := trace w @ [WriteFile path data]\<rparr>))"

definition mkdirSync :: "string \<Rightarrow> world \<Rightarrow> world" where
  "mkdirSync path w =
     w\<lparr>dirs := dirs w \<union> set (map (Pair (fst (dir_of path))) (down_to (snd (dir_of path)))),
       trace := trace w @ [Mkdir path]\<rparr>"

definition stat :: "string \<Rightarrow> world \<Rightarrow> (error + unit) \<times> world" where
  "stat path w =
     ((case files w path of None \<Rightarrow> Inl (ENOENT ''stat'' path) | Some b \<Rightarrow> Inr ()),
      w\<lparr>trace := trace w @ [Stat path]\<rparr>)"

text \<open>
  \<^verbatim>\<open>unlink(path, callback)\<close> of \<^verbatim>\<open>fs\<close> is the callback form: the call only requests
  the deletion and returns. The file is removed at some time after the request, and the
  callback is called, with the error when there was no file to remove, after the code
  that is running has come to an end; the caller waits for neither. The call therefore
  only adds the path to \<open>pending\<close>, together with what the callback needs to know, and
  \<open>settle\<close> is the point at which the deletions requested so far take place, oldest
  first. Nothing in the manager applies \<open>settle\<close>: in the model the deletions take
  place between the calls of the manager, when the environment has them take place.

  The one callback that the manager passes is that of \<open>invalidateCache\<close>:
  \<^verbatim>\<open>(err) => { if (err) this.logger?.error(`Failed to remove invalid cached file: ${err}`) }\<close>;
  the flag kept with the path tells whether \<^verbatim>\<open>this.logger\<close> is there.
\<close>

definition unlink :: "string \<Rightarrow> bool \<Rightarrow> world \<Rightarrow> world" where
  "unlink path has_logger w =
     w\<lparr>pending := pending w @ [(path, has_logger)], trace := trace w @ [Unlink path]\<rparr>"

definition unlink_callback :: "bool \<Rightarrow> error option \<Rightarrow> world \<Rightarrow> world" where
  "unlink_callback has_logger err w =
     (case err of
        None \<Rightarrow> w
      | Some e \<Rightarrow>
          if has_logger
          then w\<lparr>errlog := errlog w @ [''Failed to remove invalid cached file: '' @ err_text e]\<rparr>
          else w)"

fun run_unlinks :: "(string \<times> bool) list \<Rightarrow> world \<Rightarrow> world" where
  "run_unlinks [] w = w"
| "run_unlinks ((path, has_logger) # queue) w =
     run_unlinks queue
       (case files w path of
          None \<Rightarrow> unlink_callback has_logger (Some (ENOENT ''unlink'' path)) w
        | Some b \<Rightarrow> unlink_callback has_logger None (w\<lparr>files := (files w)(path := None)\<rparr>))"

definition settle :: "world \<Rightarrow> world" where
  "settle w = run_unlinks (pending w) (w\<lparr>pending := []\<rparr>)"

subsection \<open>The cache manager\<close>

text \<open>
  The fields of \<^verbatim>\<open>CompressionCacheManagerImpl\<close>; \<open>logger\<close> tells whether a logger was
  given to the constructor. Every method takes the manager and the world and returns
  what it returns or throws together with the manager and the world it leaves.
\<close>

record manager =
  cacheDir :: string
  manifest :: CompressionCache
  logger :: bool

definition new_manager :: "string \<Rightarrow> bool \<Rightarrow> manager" where
  "new_manager astroDir lg =
     \<lparr>cacheDir = astroDir, manifest = \<lparr>version = ''1'', entries = []\<rparr>, logger = lg\<rparr>"

definition manifestPath :: "manager \<Rightarrow> string" where
  "manifestPath mg = path_join (cacheDir mg) ''manifest.json''"

text \<open>
  \<^verbatim>\<open>JSON.parse\<close> is a parameter of \<open>loadManifest\<close>: \<open>None\<close> is the \<^verbatim>\<open>SyntaxError\<close> it
  throws, and a result is read at the type \<^verbatim>\<open>CompressionCache\<close> that the source
  gives it without a check.
\<close>

definition loadManifest ::
  "(string \<Rightarrow> CompressionCache option) \<Rightarrow> manager \<Rightarrow> world \<Rightarrow> (error + unit) \<times> manager \<times> world"
where
  "loadManifest JSON_parse mg w =
     (case readFileSync (manifestPath mg) w of
        (Inl e, w1) \<Rightarrow> (Inl e, mg, w1)
      | (Inr content, w1) \<Rightarrow>
          (case JSON_parse content of
             None \<Rightarrow> (Inl SyntaxError, mg, w1)
           | Some m \<Rightarrow> (Inr (), mg\<lparr>manifest := m\<rparr>, w1)))"

text \<open>
  \<open>saveManifest\<close> is not an \<^verbatim>\<open>async\<close> method: when its write throws, the method
  that called it throws.
\<close>

definition saveManifest :: "manager \<Rightarrow> world \<Rightarrow> (error + unit) \<times> world" where
  "saveManifest mg w = writeFileSync (manifestPath mg) (stringify2 (manifest_json (manifest mg))) w"

definition initialize ::
  "(string \<Rightarrow> CompressionCache option) \<Rightarrow> manager \<Rightarrow> world \<Rightarrow> (error + unit) \<times> manager \<times> world"
where
  "initialize JSON_parse mg w =
     (let w1 = mkdirSync (cacheDir mg) w
      in case loadManifest JSON_parse mg w1 of
           (Inr u, mg2, w2) \<Rightarrow> (Inr (), mg2, w2)
         | (Inl e, mg2, w2) \<Rightarrow>
             (case saveManifest mg2 w2 of
                (Inl e', w3) \<Rightarrow> (Inl e', mg2, w3)
              | (Inr u, w3) \<Rightarrow> (Inr (), mg2, w3)))"

definition undefined_compressedPath :: string where
  "undefined_compressedPath =
     ''Cannot read properties of undefined (reading '' @ [CHR 0x27] @ ''compressedPath''
       @ [CHR 0x27] @ '')''"

definition invalidateCache :: "manager \<Rightarrow> string \<Rightarrow> world \<Rightarrow> (error + unit) \<times> manager \<times> world"
where
  "invalidateCache mg originalPath w =
     (case map_of (entries (manifest mg)) originalPath of
        None \<Rightarrow>
          (Inl (TypeError undefined_compressedPath), mg, w)
      | Some entry \<Rightarrow>
          (let w1 = unlink (compressedPath entry) (logger mg) w;
               mg1 = mg\<lparr>manifest :=
                        (manifest mg)\<lparr>entries := AList.delete originalPath (entries (manifest mg))\<rparr>\<rparr>
           in case saveManifest mg1 w1 of
                (Inl e, w2) \<Rightarrow> (Inl e, mg1, w2)
              | (Inr u, w2) \<Rightarrow> (Inr (), mg1, w2)))"

text \<open>
  \<open>getCachedFile\<close> calls \<open>invalidateCache\<close> without awaiting it: what that call throws
  is not seen by \<open>getCachedFile\<close>, what it does to the manager and the world is.
\<close>

definition getCachedFile ::
  "manager \<Rightarrow> string \<Rightarrow> json \<Rightarrow> world \<Rightarrow> (error + CacheEntry option) \<times> manager \<times> world"
where
  "getCachedFile mg originalPath settings' w =
     (case readFileSync originalPath w of
        (Inl e, w1) \<Rightarrow> (Inl e, mg, w1)
      | (Inr originalContent, w1) \<Rightarrow>
          (let sourceOriginalHash = sha256_hex originalContent
           in case map_of (entries (manifest mg)) originalPath of
                None \<Rightarrow> (Inr None, mg, w1)
              | Some entry \<Rightarrow>
                  if sourceHash entry \<noteq> sourceOriginalHash then
                    (case invalidateCache mg originalPath w1 of
                       (r, mg2, w2) \<Rightarrow> (Inr None, mg2, w2))
                  else if stringify (settings entry) \<noteq> stringify settings' then
                    (case invalidateCache mg originalPath w1 of
                       (r, mg2, w2) \<Rightarrow> (Inr None, mg2, w2))
                  else
                    (case stat (compressedPath entry) w1 of
                       (Inr u, w2) \<Rightarrow> (Inr (Some entry), mg, w2)
                     | (Inl e, w2) \<Rightarrow>
                         (let mg1 = mg\<lparr>manifest :=
                                (manifest mg)\<lparr>entries :=
                                   AList.delete originalPath (entries (manifest mg))\<rparr>\<rparr>
                          in case saveManifest mg1 w2 of
                               (Inl e', w3) \<Rightarrow> (Inl e', mg1, w3)
                             | (Inr u, w3) \<Rightarrow> (Inr None, mg1, w3)))))"

text \<open>\<^verbatim>\<open>originalPath.split('.').pop() || ''\<close>\<close>

definition ext_of :: "string \<Rightarrow> string" where
  "ext_of originalPath =
     (let popped = last (split_on CHR ''.'' originalPath)
      in if popped \<noteq> [] then popped else [])"

definition cachedFileName :: "string \<Rightarrow> string \<Rightarrow> string" where
  "cachedFileName sourceOriginalHash originalPath = sourceOriginalHash @ ''.'' @ ext_of originalPath"

text \<open>
  When the write of the artifact throws, \<open>saveToCache\<close> throws before it touches
  the manifest.
\<close>

definition saveToCache ::
  "manager \<Rightarrow> string \<Rightarrow> string \<Rightarrow> json \<Rightarrow> world \<Rightarrow> (error + unit) \<times> manager \<times> world"
where
  "saveToCache mg originalPath compressedContent settings' w =
     (case readFileSync originalPath w of
        (Inl e, w1) \<Rightarrow> (Inl e, mg, w1)
      | (Inr originalContent, w1) \<Rightarrow>
          (let sourceOriginalHash = sha256_hex originalContent;
               cachedFilePath = path_join (cacheDir mg) (cachedFileName sourceOriginalHash originalPath)
           in case writeFileSync cachedFilePath compressedContent w1 of
                (Inl e, w2) \<Rightarrow> (Inl e, mg, w2)
              | (Inr u, w2) \<Rightarrow>
                  (let entry = \<lparr>sourceHash = sourceOriginalHash,
                                compressedPath = cachedFilePath,
                                timestamp = now w2,
                                settings = settings',
                                size_bytes = \<lparr>original = length originalContent,
                                               compressed = length compressedContent\<rparr>\<rparr>;
                       mg1 = mg\<lparr>manifest :=
                                (manifest mg)\<lparr>entries :=
                                   AList.update originalPath entry (entries (manifest mg))\<rparr>\<rparr>
                   in case saveManifest mg1 w2 of
                        (Inl e, w3) \<Rightarrow> (Inl e, mg1, w3)
                      | (Inr u, w3) \<Rightarrow> (Inr (), mg1, w3))))"

subsection \<open>Structural equality of settings, as the specification words it\<close>

text \<open>
  The specification asks for a deep, structural equality of settings values that does
  not depend on the order in which the keys of an object are serialised: two objects
  are equal when they have the same keys and equal values under each key, two arrays
  when they are equal element by element.
\<close>

fun deep_equal :: "json \<Rightarrow> json \<Rightarrow> bool"
  and deep_equal_list :: "json list \<Rightarrow> json list \<Rightarrow> bool"
  and deep_equal_members :: "(string \<times> json) list \<Rightarrow> (string \<times> json) list \<Rightarrow> bool"
where
  "deep_equal (JArr xs) (JArr ys) = deep_equal_list xs ys"
| "deep_equal (JObj xs) (JObj ys) =
     (set (map fst xs) = set (map fst ys) \<and> deep_equal_members xs ys)"
| "deep_equal a b = (a = b)"
| "deep_equal_list [] [] = True"
| "deep_equal_list (x # xs) (y # ys) = (deep_equal x y \<and> deep_equal_list xs ys)"
| "deep_equal_list _ _ = False"
| "deep_equal_members [] ys = True"
| "deep_equal_members ((k, v) # xs) ys =
     ((case map_of ys k of None \<Rightarrow> False | Some v' \<Rightarrow> deep_equal v v') \<and> deep_equal_members xs ys)"


subsection \<open>Auxiliary notions and sample data\<close>

definition hexchars :: "char set" where
  "hexchars = set ''0123456789abcdef''"

text \<open>The segments of a path: what lies between its slashes.\<close>

definition segments :: "string \<Rightarrow> string list" where
  "segments path = filter (\<lambda>s. s \<noteq> []) (split_on CHR ''/'' path)"

text \<open>
  A style sheet with the three bytes \<open>abc\<close>, its cached artifact, and a manager whose
  manifest holds the entry that \<open>saveToCache\<close> makes for it.
\<close>

definition digest_abc :: string where
  "digest_abc = ''ba7816bf8f01cfea414140de5dae2223b00361a396177a9cb410ff61f20015ad''"

definition digest_empty :: string where
  "digest_empty = ''e3b0c44298fc1c149afbf4c8996fb92427ae41e4649b934ca495991b7852b855''"

definition ex_dir :: string where
  "ex_dir = ''/site/.cache''"

definition ex_source :: string where
  "ex_source = ''/site/dist/style.css''"

definition ex_artifact :: string where
  "ex_artifact = ''/site/.cache/'' @ digest_abc @ ''.css''"

definition ex_settings :: json where
  "ex_settings = JObj [(''format'', JStr ''css''), (''config'', JObj [])]"

definition ex_settings_reordered :: json where
  "ex_settings_reordered = JObj [(''config'', JObj []), (''format'', JStr ''css'')]"

definition ex_entry :: CacheEntry where
  "ex_entry =
     \<lparr>sourceHash = digest_abc, compressedPath = ex_artifact, timestamp = 1700000000000,
      settings = ex_settings, size_bytes = \<lparr>original = 3, compressed = 2\<rparr>\<rparr>"

definition ex_manager :: manager where
  "ex_manager =
     \<lparr>cacheDir = ex_dir, manifest = \<lparr>version = ''1'', entries = [(ex_source, ex_entry)]\<rparr>,
      logger = True\<rparr>"

text \<open>
  The directories of the site: \<^verbatim>\<open>/site\<close>, the cache directory \<^verbatim>\<open>/site/.cache\<close> and
  \<^verbatim>\<open>/site/dist\<close>; and the same without the cache directory.
\<close>

definition ex_dirs :: "(bool \<times> string list) set" where
  "ex_dirs = {(True, [''site'']), (True, [''site'', ''.cache'']), (True, [''site'', ''dist''])}"

definition ex_dirs_no_cache :: "(bool \<times> string list) set" where
  "ex_dirs_no_cache = {(True, [''site'']), (True, [''site'', ''dist''])}"

text \<open>
  Worlds: with the artifact in place, with the artifact gone, with the source emptied,
  as \<open>saveToCache\<close> leaves the world with the source only, with a file that has no
  extension, with no file at all, and, without a cache directory, with the source only
  and with the source emptied.
\<close>

definition ex_world :: world where
  "ex_world =
     \<lparr>files = [ex_source \<mapsto> ''abc'', ex_artifact \<mapsto> ''ab''], dirs = ex_dirs,
      now = 1700000000000, errlog = [], pending = [], trace = []\<rparr>"

definition ex_world_no_artifact :: world where
  "ex_world_no_artifact =
     \<lparr>files = [ex_source \<mapsto> ''abc''], dirs = ex_dirs,
      now = 1700000000000, errlog = [], pending = [], trace = []\<rparr>"

definition ex_world_edited :: world where
  "ex_world_edited =
     \<lparr>files = [ex_source \<mapsto> [], ex_artifact \<mapsto> ''ab''], dirs = ex_dirs,
      now = 1700000000000, errlog = [], pending = [], trace = []\<rparr>"

definition ex_world_saved :: world where
  "ex_world_saved =
     \<lparr>files = [ex_source \<mapsto> ''abc'', ex_artifact \<mapsto> ''ab'',
               ''/site/.cache/manifest.json'' \<mapsto> stringify2 (manifest_json (manifest ex_manager))],
      dirs = ex_dirs, now = 1700000000000, errlog = [], pending = [],
      trace = [ReadFile ex_source, WriteFile ex_artifact ''ab'',
               WriteFile ''/site/.cache/manifest.json''
                 (stringify2 (manifest_json (manifest ex_manager)))]\<rparr>"

definition ex_license :: string where
  "ex_license = ''/site/dist/LICENSE''"

definition ex_world_license :: world where
  "ex_world_license =
     \<lparr>files = [ex_license \<mapsto> ''abc''], dirs = ex_dirs,
      now = 1700000000000, errlog = [], pending = [], trace = []\<rparr>"

definition ex_world_empty :: world where
  "ex_world_empty =
     \<lparr>files = Map.empty, dirs = ex_dirs,
      now = 1700000000000, errlog = [], pending = [], trace = []\<rparr>"

definition ex_world_no_cache_dir :: world where
  "ex_world_no_cache_dir =
     \<lparr>files = [ex_source \<mapsto> ''abc''], dirs = ex_dirs_no_cache,
      now = 1700000000000, errlog = [], pending = [], trace = []\<rparr>"

definition ex_world_edited_no_cache_dir :: world where
  "ex_world_edited_no_cache_dir =
     \<lparr>files = [ex_source \<mapsto> []], dirs = ex_dirs_no_cache,
      now = 1700000000000, errlog = [], pending = [], trace = []\<rparr>"

text \<open>
  A world in which the file to be cached is the file at the path that \<open>saveToCache\<close>
  derives for it: its three bytes are \<open>abc\<close> and it lies in the cache directory under
  the name of their digest.
\<close>

definition ex_world_self :: world where
  "ex_world_self =
     \<lparr>files = [ex_artifact \<mapsto> ''abc''], dirs = ex_dirs,
      now = 1700000000000, errlog = [], pending = [], trace = []\<rparr>"







text \<open>
  For the proofs about \<open>path_join\<close>: a stack of segments is \<open>plain\<close> when no segment is
  empty or holds a slash; \<open>no_dots\<close> holds of a relative name none of whose segments is
  \<open>.\<close> or \<open>..\<close>; a stack is \<open>canon\<close> when it is one that \<open>normalizeString\<close> can be
  left with: no segment is empty or \<open>.\<close>, and \<open>..\<close> comes only first, and only when
  the path may climb above where it starts.
\<close>

definition plain :: "string list \<Rightarrow> bool" where
  "plain st \<longleftrightarrow> (\<forall>s\<in>set st. s \<noteq> [] \<and> CHR ''/'' \<notin> set s)"

definition no_dots :: "string \<Rightarrow> bool" where
  "no_dots n \<longleftrightarrow> (\<forall>s\<in>set (split_on CHR ''/'' n). s \<noteq> ''.'' \<and> s \<noteq> ''..'')"

definition dir_stack :: "string \<Rightarrow> string list" where
  "dir_stack d = (if d = [] then [] else stack_of d)"

fun canon :: "bool \<Rightarrow> string list \<Rightarrow> bool" where
  "canon a [] = True"
| "canon a (x # xs) =
     (x \<noteq> [] \<and> x \<noteq> ''.''
      \<and> (if x = ''..'' then a \<and> canon a xs else ''..'' \<notin> set xs \<and> canon a xs))"

subsection \<open>The digest is 64 hexadecimal digits\<close>

lemma round256_length: "length v = 8 \<Longrightarrow> length (round256 v kw) = 8"
  by (cases "(v, kw)" rule: round256.cases) (auto simp: Let_def)

lemma foldl_round256_length: "length v = 8 \<Longrightarrow> length (foldl round256 v kws) = 8"
  by (induction kws arbitrary: v) (simp_all add: round256_length)

lemma compress_length: "length hs = 8 \<Longrightarrow> length (compress hs b) = 8"
  by (simp add: compress_def foldl_round256_length)

lemma foldl_compress_length: "length hs = 8 \<Longrightarrow> length (foldl compress hs bs) = 8"
  by (induction bs arbitrary: hs) (simp_all add: compress_length)

lemma sha256_length: "length (sha256 m) = 8"
  by (simp add: sha256_def foldl_compress_length H256_def)

lemma hexdigit_in: "hexdigit n \<in> hexchars"
  unfolding hexdigit_def hexchars_def by (rule nth_mem) simp

lemma hex32_length: "length (hex32 w) = 8"
  by (simp add: hex32_def)

lemma hex32_chars: "set (hex32 w) \<subseteq> hexchars"
  unfolding hex32_def using hexdigit_in by auto

lemma length_concat_const:
  "(\<And>x. x \<in> set xs \<Longrightarrow> length x = k) \<Longrightarrow> length (concat xs) = k * length xs"
  by (induction xs) simp_all

lemma sha256_hex_length: "length (sha256_hex m) = 64"
proof -
  have "length (concat (map hex32 (sha256 m))) = 8 * length (map hex32 (sha256 m))"
    by (rule length_concat_const) (auto simp: hex32_length)
  then show ?thesis
    by (simp add: sha256_hex_def sha256_length)
qed

lemma sha256_hex_chars: "set (sha256_hex m) \<subseteq> hexchars"
  unfolding sha256_hex_def using hex32_chars by auto

lemma slash_not_hex: "CHR ''/'' \<notin> hexchars"
  by (simp add: hexchars_def)

lemma dot_not_hex: "CHR ''.'' \<notin> hexchars"
  by (simp add: hexchars_def)

text \<open>Known answers: the test vectors of FIPS 180-4 for the empty message and for \<open>abc\<close>.\<close>

lemma sha256_hex_abc: "sha256_hex ''abc'' = digest_abc"
  unfolding digest_abc_def by code_simp

lemma sha256_hex_empty: "sha256_hex [] = digest_empty"
  unfolding digest_empty_def by code_simp

subsection \<open>Paths made by \<open>path_join\<close>\<close>

lemma split_on_not_Nil: "split_on c xs \<noteq> []"
  by (induction xs) (auto split: list.splits)

lemma split_on_append: "split_on c (xs @ c # ys) = split_on c xs @ split_on c ys"
  by (induction xs) (auto split: list.splits simp: split_on_not_Nil)

lemma split_on_free: "c \<notin> set xs \<Longrightarrow> split_on c xs = [xs]"
  by (induction xs) auto

lemma split_on_prefix_free:
  "c \<notin> set u \<Longrightarrow> split_on c (u @ v) = (u @ hd (split_on c v)) # tl (split_on c v)"
  by (induction u) (auto split: list.splits simp: split_on_not_Nil)

lemma split_on_subset: "s \<in> set (split_on c xs) \<Longrightarrow> set s \<subseteq> set xs"
proof (induction xs arbitrary: s)
  case Nil
  then show ?case by simp
next
  case (Cons a xs)
  show ?case
  proof (cases "a = c")
    case True
    with Cons show ?thesis by auto
  next
    case False
    obtain p ps where sp: "split_on c xs = p # ps"
      using split_on_not_Nil[of c xs] by (cases "split_on c xs") auto
    with False Cons.prems have "s = a # p \<or> s \<in> set ps" by simp
    moreover have "set p \<subseteq> set xs" "\<And>q. q \<in> set ps \<Longrightarrow> set q \<subseteq> set xs"
      using Cons.IH sp by simp_all
    ultimately show ?thesis by auto
  qed
qed

lemma split_on_sep_free: "s \<in> set (split_on c xs) \<Longrightarrow> c \<notin> set s"
  by (induction xs arbitrary: s) (auto split: if_splits list.splits)

lemma last_split_on_free: "c \<notin> set (last (split_on c xs))"
  using split_on_sep_free[of "last (split_on c xs)" c xs] split_on_not_Nil[of c xs]
  by simp

lemma split_on_join_with:
  "xs \<noteq> [] \<Longrightarrow> \<forall>x\<in>set xs. c \<notin> set x \<Longrightarrow> split_on c (join_with [c] xs) = xs"
proof (induction "[c]" xs rule: join_with.induct)
  case 1
  then show ?case by simp
next
  case (2 x)
  then show ?case by (simp add: split_on_free)
next
  case (3 x y ys)
  then show ?case
    by (simp add: split_on_append split_on_free)
qed

lemma join_with_Nil_iff:
  "\<forall>x\<in>set xs. x \<noteq> [] \<Longrightarrow> join_with sep xs = [] \<longleftrightarrow> xs = []"
  by (induction sep xs rule: join_with.induct) auto

lemma plain_butlast: "plain st \<Longrightarrow> plain (butlast st)"
  unfolding plain_def by (auto dest: in_set_butlastD)

lemma norm_step_plain:
  "plain st \<Longrightarrow> CHR ''/'' \<notin> set seg \<Longrightarrow> plain (norm_step a st seg)"
  by (auto simp: norm_step_def plain_butlast) (auto simp: plain_def)

lemma foldl_norm_step_plain:
  "plain st \<Longrightarrow> \<forall>s\<in>set segs. CHR ''/'' \<notin> set s \<Longrightarrow> plain (foldl (norm_step a) st segs)"
  by (induction segs arbitrary: st) (simp_all add: norm_step_plain)

lemma foldl_norm_step_no_dots:
  "\<forall>s\<in>set segs. s \<noteq> ''.'' \<and> s \<noteq> ''..'' \<Longrightarrow>
     foldl (norm_step a) st segs = st @ filter (\<lambda>s. s \<noteq> []) segs"
  by (induction segs arbitrary: st) (auto simp: norm_step_def)

lemma segments_render:
  assumes "plain st" "st \<noteq> []"
  shows "segments ((if a then ''/'' else []) @ join_with ''/'' st @ (if t then ''/'' else [])) = st"
proof -
  have sp: "split_on CHR ''/'' (join_with ''/'' st) = st"
    using assms by (intro split_on_join_with) (auto simp: plain_def)
  have ne: "filter (\<lambda>s. s \<noteq> []) st = st"
    using assms by (auto simp: plain_def intro: filter_True)
  have tr: "split_on CHR ''/'' (join_with ''/'' st @ ''/'') = st @ [[]]"
    using split_on_append[of "CHR ''/''" "join_with ''/'' st" "[]"] sp by simp
  show ?thesis
    by (cases a; cases t) (simp_all add: segments_def sp ne tr)
qed

lemma plain_stack_of: "plain (stack_of path)"
  unfolding stack_of_def
  by (rule foldl_norm_step_plain) (auto simp: plain_def split_on_sep_free)

lemma segments_normalize:
  assumes "path \<noteq> []" "stack_of path \<noteq> []"
  shows "segments (normalize path) = stack_of path"
proof -
  have pl: "plain (stack_of path)" by (rule plain_stack_of)
  have ne: "join_with ''/'' (stack_of path) \<noteq> []"
    using join_with_Nil_iff[of "stack_of path" "''/''"] pl assms(2) by (auto simp: plain_def)
  have "normalize path =
          (if hd path = CHR ''/'' then ''/'' else []) @ join_with ''/'' (stack_of path)
            @ (if last path = CHR ''/'' then ''/'' else [])"
    using assms(1) ne
    by (simp add: normalize_def normalizeString_def stack_of_def[symmetric] Let_def)
  then show ?thesis
    using segments_render[OF pl assms(2)] by simp
qed


lemma path_join_nonempty:
  "b \<noteq> [] \<Longrightarrow> path_join a b = normalize (if a = [] then b else a @ ''/'' @ b)"
  by (simp add: path_join_def Let_def)

lemma stack_of_joined:
  assumes "no_dots n"
  shows "stack_of (if d = [] then n else d @ ''/'' @ n) = dir_stack d @ segments n"
  using assms
  by (simp add: stack_of_def dir_stack_def no_dots_def split_on_append
                foldl_norm_step_no_dots segments_def)

lemma segments_path_join:
  assumes "no_dots n" "segments n \<noteq> []"
  shows "segments (path_join d n) = dir_stack d @ segments n"
proof -
  have n: "n \<noteq> []" using assms(2) by (auto simp: segments_def)
  let ?j = "if d = [] then n else d @ ''/'' @ n"
  have st: "stack_of ?j = dir_stack d @ segments n"
    by (rule stack_of_joined[OF assms(1)])
  have "segments (normalize ?j) = stack_of ?j"
    by (rule segments_normalize) (use n st assms(2) in auto)
  then show ?thesis
    using n st by (simp add: path_join_nonempty)
qed

lemma length_neq_imp_neq: "length a \<noteq> length b \<Longrightarrow> a \<noteq> b"
  by auto

lemma ext_of_no_dot: "CHR ''.'' \<notin> set (ext_of p)"
  using last_split_on_free[of "CHR ''.''" p] by (simp add: ext_of_def Let_def)

lemma ext_of_eq: "ext_of p = last (split_on CHR ''.'' p)"
  by (simp add: ext_of_def Let_def)

lemma split_cachedFileName:
  assumes "CHR ''/'' \<notin> set h"
  shows "split_on CHR ''/'' (cachedFileName h p) =
           (h @ ''.'' @ hd (split_on CHR ''/'' (ext_of p))) # tl (split_on CHR ''/'' (ext_of p))"
  using split_on_prefix_free[of "CHR ''/''" "h @ ''.''" "ext_of p"] assms
  by (simp add: cachedFileName_def)

lemma no_dots_cachedFileName:
  assumes "CHR ''/'' \<notin> set h" "length h = 64"
  shows "no_dots (cachedFileName h p)"
proof -
  have "s \<noteq> ''.'' \<and> s \<noteq> ''..''" if "s \<in> set (tl (split_on CHR ''/'' (ext_of p)))" for s
  proof -
    from that have "s \<in> set (split_on CHR ''/'' (ext_of p))"
      by (metis list.collapse list.set_intros(2) split_on_not_Nil)
    then have "set s \<subseteq> set (ext_of p)" by (rule split_on_subset)
    with ext_of_no_dot[of p] have "CHR ''.'' \<notin> set s" by auto
    then show ?thesis by auto
  qed
  moreover have "length (h @ ''.'' @ hd (split_on CHR ''/'' (ext_of p))) \<noteq> length ''.''"
    "length (h @ ''.'' @ hd (split_on CHR ''/'' (ext_of p))) \<noteq> length ''..''"
    using assms(2) by simp_all
  then have "h @ ''.'' @ hd (split_on CHR ''/'' (ext_of p)) \<noteq> ''.''
           \<and> h @ ''.'' @ hd (split_on CHR ''/'' (ext_of p)) \<noteq> ''..''"
    by (intro conjI length_neq_imp_neq)
  ultimately show ?thesis
    unfolding no_dots_def split_cachedFileName[OF assms(1)] by auto
qed


lemma sha256_hex_no_slash: "CHR ''/'' \<notin> set (sha256_hex m)"
  using sha256_hex_chars[of m] slash_not_hex by auto




text \<open>
  When what follows the last dot of the original path holds no slash, the artifact path
  is the cache directory's segments followed by the one segment \<open>hash.ext\<close>.
\<close>

lemma artifact_directly_in_cache_dir:
  assumes "CHR ''/'' \<notin> set (ext_of p)"
  shows "segments (path_join d (cachedFileName (sha256_hex src) p))
           = dir_stack d @ [sha256_hex src @ ''.'' @ ext_of p]"
proof -
  let ?h = "sha256_hex src"
  have "split_on CHR ''/'' (cachedFileName ?h p) = [?h @ ''.'' @ ext_of p]"
    using split_cachedFileName[OF sha256_hex_no_slash, of src p] assms
    by (simp add: split_on_free)
  then have sg: "segments (cachedFileName ?h p) = [?h @ ''.'' @ ext_of p]"
    by (simp add: segments_def)
  have nd: "no_dots (cachedFileName ?h p)"
    by (rule no_dots_cachedFileName[OF sha256_hex_no_slash sha256_hex_length])
  show ?thesis
    using segments_path_join[OF nd, of d] sg by simp
qed


subsection \<open>Directories\<close>

lemma canon_elems: "canon a ys \<Longrightarrow> y \<in> set ys \<Longrightarrow> y \<noteq> [] \<and> y \<noteq> ''.''"
  by (induction ys) (auto split: if_splits)

lemma canon_before_dotdot:
  "canon a (res @ ''..'' # xs) \<Longrightarrow> a \<and> (res = [] \<or> last res = ''..'')"
  by (induction res) (auto split: if_splits)

lemma canon_foldl: "canon a (res @ xs) \<Longrightarrow> foldl (norm_step a) res xs = res @ xs"
proof (induction xs arbitrary: res)
  case Nil
  then show ?case by simp
next
  case (Cons x xs)
  have el: "x \<noteq> [] \<and> x \<noteq> ''.''"
    using canon_elems[OF Cons.prems, of x] by simp
  have "norm_step a res x = res @ [x]"
  proof (cases "x = ''..''")
    case True
    with Cons.prems canon_before_dotdot[of a res xs] show ?thesis
      by (auto simp: norm_step_def)
  next
    case False
    with el show ?thesis by (simp add: norm_step_def)
  qed
  moreover have "canon a ((res @ [x]) @ xs)" using Cons.prems by simp
  ultimately show ?case using Cons.IH[of "res @ [x]"] by simp
qed

lemma canon_butlast: "canon a res \<Longrightarrow> canon a (butlast res)"
  by (induction res) (auto split: if_splits dest: in_set_butlastD)

lemma canon_all_dotdot:
  "canon a res \<Longrightarrow> res \<noteq> [] \<Longrightarrow> last res = ''..'' \<Longrightarrow> set res \<subseteq> {''..''}"
proof (induction res)
  case Nil
  then show ?case by simp
next
  case (Cons x res)
  show ?case
  proof (cases "res = []")
    case True
    with Cons.prems show ?thesis by simp
  next
    case False
    with Cons.prems have l: "last res = ''..''" by simp
    then have "''..'' \<in> set res" using False last_in_set by metis
    with Cons.prems have "x = ''..''" by (auto split: if_splits)
    moreover have "set res \<subseteq> {''..''}"
      using Cons.IH False l Cons.prems(1) by (auto split: if_splits)
    ultimately show ?thesis by simp
  qed
qed

lemma canon_snoc_dotdot: "canon a res \<Longrightarrow> a \<Longrightarrow> set res \<subseteq> {''..''} \<Longrightarrow> canon a (res @ [''..''])"
  by (induction res) auto

lemma canon_snoc:
  "canon a res \<Longrightarrow> x \<noteq> [] \<Longrightarrow> x \<noteq> ''.'' \<Longrightarrow> x \<noteq> ''..'' \<Longrightarrow> canon a (res @ [x])"
  by (induction res) auto

lemma canon_norm_step:
  assumes "canon a res"
  shows "canon a (norm_step a res seg)"
proof (cases "seg = ''..''")
  case False
  with assms show ?thesis by (auto simp: norm_step_def canon_snoc)
next
  case True
  show ?thesis
  proof (cases "res \<noteq> [] \<and> last res \<noteq> ''..''")
    case True
    with \<open>seg = ''..''\<close> assms show ?thesis by (simp add: norm_step_def canon_butlast)
  next
    case False
    then have "set res \<subseteq> {''..''}"
      using canon_all_dotdot[OF assms] by (cases "res = []") auto
    with False \<open>seg = ''..''\<close> assms show ?thesis
      by (auto simp: norm_step_def canon_snoc_dotdot)
  qed
qed

lemma canon_foldl_norm_step: "canon a res \<Longrightarrow> canon a (foldl (norm_step a) res segs)"
  by (induction segs arbitrary: res) (simp_all add: canon_norm_step)

lemma canon_stack_of: "canon (hd path \<noteq> CHR ''/'') (stack_of path)"
  unfolding stack_of_def by (rule canon_foldl_norm_step) simp

lemma foldl_norm_step_filter:
  "foldl (norm_step a) st (filter (\<lambda>s. s \<noteq> []) xs) = foldl (norm_step a) st xs"
  by (induction xs arbitrary: st) (auto simp: norm_step_def)

lemma stack_of_segments:
  "stack_of path = foldl (norm_step (hd path \<noteq> CHR ''/'')) [] (segments path)"
  by (simp add: stack_of_def segments_def foldl_norm_step_filter)

lemma hd_join_with_plain:
  "plain st \<Longrightarrow> st \<noteq> [] \<Longrightarrow> hd (join_with ''/'' st) \<noteq> CHR ''/''"
  by (induction "''/''" st rule: join_with.induct) (auto simp: plain_def hd_append dest: hd_in_set)

lemma normalize_shape:
  assumes "path \<noteq> []" "stack_of path \<noteq> []"
  shows "normalize path =
          (if hd path = CHR ''/'' then ''/'' else []) @ join_with ''/'' (stack_of path)
            @ (if last path = CHR ''/'' then ''/'' else [])"
    and "join_with ''/'' (stack_of path) \<noteq> []"
proof -
  have pl: "plain (stack_of path)" by (rule plain_stack_of)
  show ne: "join_with ''/'' (stack_of path) \<noteq> []"
    using join_with_Nil_iff[of "stack_of path" "''/''"] pl assms(2) by (auto simp: plain_def)
  show "normalize path =
          (if hd path = CHR ''/'' then ''/'' else []) @ join_with ''/'' (stack_of path)
            @ (if last path = CHR ''/'' then ''/'' else [])"
    using assms(1) ne
    by (simp add: normalize_def normalizeString_def stack_of_def[symmetric] Let_def)
qed

lemma hd_normalize:
  assumes "path \<noteq> []" "stack_of path \<noteq> []"
  shows "hd (normalize path) = CHR ''/'' \<longleftrightarrow> hd path = CHR ''/''"
  using normalize_shape[OF assms] hd_join_with_plain[OF plain_stack_of assms(2)]
  by (auto simp: hd_append)

text \<open>Normalising a path a second time changes nothing in its stack of segments.\<close>

lemma stack_of_normalize:
  assumes "path \<noteq> []" "stack_of path \<noteq> []"
  shows "stack_of (normalize path) = stack_of path"
proof -
  have "stack_of (normalize path)
          = foldl (norm_step (hd path \<noteq> CHR ''/'')) [] (stack_of path)"
    using segments_normalize[OF assms] hd_normalize[OF assms]
    by (simp add: stack_of_segments)
  also have "\<dots> = stack_of path"
    using canon_foldl[of "hd path \<noteq> CHR ''/''" "[]" "stack_of path"] canon_stack_of[of path]
    by simp
  finally show ?thesis .
qed

text \<open>
  A name that is one segment, joined to a directory, is a path of which that directory
  is the parent.
\<close>

lemma dir_of_path_join:
  assumes "CHR ''/'' \<notin> set n" "n \<noteq> []" "n \<noteq> ''.''" "n \<noteq> ''..''"
  shows "dir_of (path_join d n) = (fst (dir_of d), snd (dir_of d) @ [n])"
proof -
  let ?j = "if d = [] then n else d @ ''/'' @ n"
  have sp: "split_on CHR ''/'' n = [n]"
    using assms(1) by (rule split_on_free)
  have nd: "no_dots n"
    using assms(3,4) by (simp add: no_dots_def sp)
  have sg: "segments n = [n]"
    using assms(2) by (simp add: segments_def sp)
  have j: "?j \<noteq> []" using assms(2) by simp
  have st: "stack_of ?j = dir_stack d @ [n]"
    using stack_of_joined[OF nd, of d] sg by simp
  then have ne: "stack_of ?j \<noteq> []" by simp
  have pj: "path_join d n = normalize ?j"
    using assms(2) by (rule path_join_nonempty)
  have nn: "normalize ?j \<noteq> []"
    using normalize_shape[OF j ne] by simp
  have hn: "hd n \<noteq> CHR ''/''"
    using assms(1,2) by (cases n) auto
  have hj: "hd ?j = CHR ''/'' \<longleftrightarrow> d \<noteq> [] \<and> hd d = CHR ''/''"
    using hn by simp
  have ds: "dir_stack d = snd (dir_of d)"
    by (simp add: dir_stack_def dir_of_def stack_of_def norm_step_def)
  show ?thesis
    unfolding pj
    using stack_of_normalize[OF j ne] hd_normalize[OF j ne] nn hj st ds
    by (simp add: dir_of_def)
qed

lemma parent_of_path_join:
  assumes "CHR ''/'' \<notin> set n" "n \<noteq> []" "n \<noteq> ''.''" "n \<noteq> ''..''"
  shows "parent_of (path_join d n) = dir_of d"
  by (simp add: parent_of_def dir_of_path_join[OF assms])

lemma parent_of_manifestPath: "parent_of (manifestPath mg) = dir_of (cacheDir mg)"
  unfolding manifestPath_def by (rule parent_of_path_join) simp_all

text \<open>
  When what follows the last dot of the original path holds no slash, the cache
  directory is the parent of the artifact path.
\<close>

lemma parent_of_artifact:
  assumes "CHR ''/'' \<notin> set (ext_of p)"
  shows "parent_of (path_join d (cachedFileName (sha256_hex src) p)) = dir_of d"
proof (rule parent_of_path_join)
  show "CHR ''/'' \<notin> set (cachedFileName (sha256_hex src) p)"
    using assms sha256_hex_no_slash[of src] by (simp add: cachedFileName_def)
  have "length (cachedFileName (sha256_hex src) p) \<ge> 65"
    by (simp add: cachedFileName_def sha256_hex_length)
  then show "cachedFileName (sha256_hex src) p \<noteq> []"
    "cachedFileName (sha256_hex src) p \<noteq> ''.''"
    "cachedFileName (sha256_hex src) p \<noteq> ''..''"
    by auto
qed

lemma down_to_self: "st \<noteq> [] \<Longrightarrow> st \<in> set (down_to st)"
  by (induction st) auto

text \<open>After \<open>mkdirSync\<close> the directory exists, and a directory that exists stays.\<close>

lemma mkdirSync_dir_exists: "dir_exists (mkdirSync d w) (dir_of d)"
proof (cases "snd (dir_of d) = []")
  case True
  then show ?thesis by (simp add: dir_exists_def)
next
  case False
  have "dir_of d = (fst (dir_of d), snd (dir_of d))" by simp
  moreover have "snd (dir_of d) \<in> set (down_to (snd (dir_of d)))"
    using False by (rule down_to_self)
  ultimately have "dir_of d \<in> Pair (fst (dir_of d)) ` set (down_to (snd (dir_of d)))"
    by (metis image_eqI)
  then show ?thesis by (simp add: dir_exists_def mkdirSync_def)
qed


subsection \<open>The sample data, evaluated\<close>

lemmas path_defs = path_join_def normalize_def normalizeString_def norm_step_def Let_def

lemmas ex_defs = ex_dir_def ex_source_def ex_artifact_def digest_abc_def digest_empty_def
  ex_settings_def ex_settings_reordered_def ex_entry_def ex_manager_def ex_world_def
  ex_world_no_artifact_def ex_world_edited_def ex_world_empty_def ex_world_saved_def
  ex_license_def ex_world_license_def ex_dirs_def ex_dirs_no_cache_def
  ex_world_no_cache_dir_def ex_world_self_def ex_world_edited_no_cache_dir_def

lemmas json_defs = stringify_def stringify2_def quote_def escape_def dquote_def backslash_def
  newline_def manifest_json_def entry_json_def

lemmas dir_defs = dir_exists_def parent_of_def dir_of_def stack_of_def

lemmas fs_defs = readFileSync_def writeFileSync_def unlink_def stat_def mkdirSync_def
  saveManifest_def unlink_callback_def settle_def

lemma ex_manifestPath: "manifestPath ex_manager = ''/site/.cache/manifest.json''"
  by (simp add: manifestPath_def ex_manager_def ex_dir_def path_defs)



lemma ex_dir_of: "dir_of ex_dir = (True, [''site'', ''.cache''])"
  by (simp add: dir_defs ex_dir_def norm_step_def)

subsection \<open>The manager's operations\<close>

lemma map_of_delete_same: "map_of (AList.delete k xs) k = None"
  by (simp add: AList.delete_conv')


text \<open>
  Writing the manifest succeeds when the cache directory exists and throws when it does
  not.
\<close>

lemma saveManifest_ok:
  assumes "dir_exists w (dir_of (cacheDir mg))"
  shows "saveManifest mg w =
           (Inr (), w\<lparr>files := (files w)(manifestPath mg \<mapsto> stringify2 (manifest_json (manifest mg))),
                       trace := trace w @ [WriteFile (manifestPath mg)
                                             (stringify2 (manifest_json (manifest mg)))]\<rparr>)"
  using assms by (simp add: saveManifest_def writeFileSync_def parent_of_manifestPath)

lemma saveManifest_fails:
  assumes "\<not> dir_exists w (dir_of (cacheDir mg))"
  shows "saveManifest mg w =
           (Inl (ENOENT ''open'' (manifestPath mg)),
            w\<lparr>trace := trace w @ [WriteFile (manifestPath mg)
                                  (stringify2 (manifest_json (manifest mg)))]\<rparr>)"
  using assms by (simp add: saveManifest_def writeFileSync_def parent_of_manifestPath)

lemma dir_exists_trace [simp]: "dir_exists (w\<lparr>trace := t\<rparr>) d = dir_exists w d"
  by (simp add: dir_exists_def)

lemma dir_exists_files [simp]: "dir_exists (w\<lparr>files := f\<rparr>) d = dir_exists w d"
  by (simp add: dir_exists_def)

lemma dir_exists_pending [simp]: "dir_exists (w\<lparr>pending := q\<rparr>) d = dir_exists w d"
  by (simp add: dir_exists_def)

lemma dir_exists_errlog [simp]: "dir_exists (w\<lparr>errlog := l\<rparr>) d = dir_exists w d"
  by (simp add: dir_exists_def)

lemma manifestPath_manifest [simp]: "manifestPath (mg\<lparr>manifest := m\<rparr>) = manifestPath mg"
  by (simp add: manifestPath_def)

text \<open>
  \<open>saveToCache\<close> returns normally exactly when the source can be read, the directory
  that is to hold the artifact exists and the cache directory exists; and then this is
  what it leaves.
\<close>

lemma saveToCache_ok:
  assumes "files w p = Some src"
    and "dir_exists w (parent_of (path_join (cacheDir mg) (cachedFileName (sha256_hex src) p)))"
    and "dir_exists w (dir_of (cacheDir mg))"
  shows "saveToCache mg p b s w =
           (let cfp = path_join (cacheDir mg) (cachedFileName (sha256_hex src) p);
                e = \<lparr>sourceHash = sha256_hex src, compressedPath = cfp, timestamp = now w,
                     settings = s, size_bytes = \<lparr>original = length src, compressed = length b\<rparr>\<rparr>;
                mg1 = mg\<lparr>manifest := (manifest mg)\<lparr>entries := AList.update p e (entries (manifest mg))\<rparr>\<rparr>;
                text = stringify2 (manifest_json (manifest mg1))
            in (Inr (), mg1,
                w\<lparr>files := (files w)(cfp \<mapsto> b, manifestPath mg \<mapsto> text),
                  trace := trace w @ [ReadFile p, WriteFile cfp b, WriteFile (manifestPath mg) text]\<rparr>))"
  using assms
  by (simp add: saveToCache_def readFileSync_def writeFileSync_def Let_def saveManifest_ok)

lemma saveToCache_returns_iff:
  assumes "files w p = Some src"
  shows "fst (saveToCache mg p b s w) = Inr () \<longleftrightarrow>
           dir_exists w (parent_of (path_join (cacheDir mg) (cachedFileName (sha256_hex src) p)))
           \<and> dir_exists w (dir_of (cacheDir mg))"
proof (cases "dir_exists w (parent_of (path_join (cacheDir mg) (cachedFileName (sha256_hex src) p)))")
  case False
  then show ?thesis
    using assms by (simp add: saveToCache_def readFileSync_def writeFileSync_def Let_def)
next
  case True
  show ?thesis
  proof (cases "dir_exists w (dir_of (cacheDir mg))")
    case True
    with \<open>dir_exists w (parent_of _)\<close> saveToCache_ok[OF assms, of mg b s] show ?thesis
      by (simp add: Let_def)
  next
    case False
    with \<open>dir_exists w (parent_of _)\<close> assms show ?thesis
      by (simp add: saveToCache_def readFileSync_def writeFileSync_def Let_def saveManifest_fails)
  qed
qed

text \<open>
  In particular \<open>saveToCache\<close> returns normally for a readable source when the cache
  directory exists and what follows the last dot of the original path holds no slash.
\<close>

lemma saveToCache_returns:
  assumes "files w p = Some src" "CHR ''/'' \<notin> set (ext_of p)" "dir_exists w (dir_of (cacheDir mg))"
  shows "fst (saveToCache mg p b s w) = Inr ()"
  using saveToCache_returns_iff[OF assms(1), of mg b s] assms(2,3)
  by (simp add: parent_of_artifact)

lemma ex_cache_dir_exists:
  "dir_exists ex_world (dir_of ex_dir)" "dir_exists ex_world_no_artifact (dir_of ex_dir)"
  "dir_exists ex_world_edited (dir_of ex_dir)" "dir_exists ex_world_saved (dir_of ex_dir)"
  "dir_exists ex_world_license (dir_of ex_dir)" "dir_exists ex_world_self (dir_of ex_dir)"
  "\<not> dir_exists ex_world_no_cache_dir (dir_of ex_dir)"
  "\<not> dir_exists ex_world_edited_no_cache_dir (dir_of ex_dir)"
  by (simp_all add: ex_dir_of dir_exists_def ex_world_def ex_world_no_artifact_def
        ex_world_edited_def ex_world_saved_def ex_world_license_def ex_world_self_def
        ex_world_no_cache_dir_def ex_world_edited_no_cache_dir_def ex_dirs_def
        ex_dirs_no_cache_def)

lemma ex_cacheDir [simp]:
  "cacheDir ex_manager = ex_dir" "cacheDir (new_manager ex_dir lg) = ex_dir"
  by (simp_all add: ex_manager_def new_manager_def)




lemma ex_lookup: "map_of (entries (manifest ex_manager)) ex_source = Some ex_entry"
  by (simp add: ex_manager_def)

lemma ex_hash: "sourceHash ex_entry = sha256_hex ''abc''"
  by (simp add: ex_entry_def sha256_hex_abc)

lemma ex_compressedPath: "compressedPath ex_entry = ex_artifact"
  by (simp add: ex_entry_def)


lemma ex_artifact_not_manifest: "ex_artifact \<noteq> ''/site/.cache/manifest.json''"
  by (simp add: ex_defs)


lemma ex_deep_equal: "deep_equal (settings ex_entry) ex_settings_reordered"
  by (simp add: ex_defs insert_commute)

lemma ex_stringify_differs: "stringify (settings ex_entry) \<noteq> stringify ex_settings_reordered"
  by (simp add: ex_defs json_defs)

lemma ex_manifest_texts_differ:
  "stringify2 (manifest_json (manifest ex_manager))
     \<noteq> stringify2 (manifest_json \<lparr>version = ''1'', entries = []\<rparr>)"
  by (simp add: ex_defs json_defs)

lemma ex_delete_entry:
  "ex_manager\<lparr>manifest := (manifest ex_manager)
     \<lparr>entries := AList.delete ex_source (entries (manifest ex_manager))\<rparr>\<rparr>
   = ex_manager\<lparr>manifest := \<lparr>version = ''1'', entries = []\<rparr>\<rparr>"
  by (simp add: ex_manager_def AList.delete_eq)


lemma files_run_unlinks_None:
  "files w path = None \<Longrightarrow> files (run_unlinks queue w) path = None"
  by (induction queue arbitrary: w) (auto simp: unlink_callback_def split: option.splits)

lemma files_run_unlinks_queued:
  "path \<in> fst ` set queue \<Longrightarrow> files (run_unlinks queue w) path = None"
proof (induction queue arbitrary: w)
  case Nil
  then show ?case by simp
next
  case (Cons a queue)
  obtain q lg where a: "a = (q, lg)" by (cases a)
  show ?case
  proof (cases "q = path")
    case True
    then show ?thesis
      unfolding a by (auto simp: unlink_callback_def files_run_unlinks_None split: option.splits)
  next
    case False
    with Cons.prems a have "path \<in> fst ` set queue" by auto
    then show ?thesis unfolding a by (simp add: Cons.IH)
  qed
qed


lemma settle_queued: "path \<in> fst ` set (pending w) \<Longrightarrow> files (settle w) path = None"
  by (simp add: settle_def files_run_unlinks_queued)

text \<open>
  A deletion that takes place before a write at another path leaves the same files as
  one that takes place after it.
\<close>

lemma deletion_before_or_after_write:
  assumes "path \<noteq> other"
  shows "files (settle (w\<lparr>files := (files w)(other \<mapsto> data), pending := [(path, has_logger)]\<rparr>))
           = (files (settle (w\<lparr>pending := [(path, has_logger)]\<rparr>)))(other \<mapsto> data)"
  using assms
  by (auto simp: settle_def unlink_callback_def fun_upd_twist split: option.splits)

lemma dirs_run_unlinks: "dirs (run_unlinks queue w) = dirs w"
  by (induction queue arbitrary: w) (auto simp: unlink_callback_def split: option.splits if_splits)

lemma dir_exists_settle [simp]: "dir_exists (settle w) d = dir_exists w d"
  by (simp add: dir_exists_def settle_def dirs_run_unlinks)

lemma settle_nothing_pending: "pending w = [] \<Longrightarrow> settle w = w"
  by (cases w) (simp add: settle_def)

text \<open>What \<open>invalidateCache\<close> leaves for a path with an entry.\<close>

lemma invalidateCache_ok:
  assumes "map_of (entries (manifest mg)) p = Some e"
    and "dir_exists w (dir_of (cacheDir mg))"
  shows "invalidateCache mg p w =
           (let mg' = mg\<lparr>manifest := (manifest mg)\<lparr>entries := AList.delete p (entries (manifest mg))\<rparr>\<rparr>;
                text = stringify2 (manifest_json (manifest mg'))
            in (Inr (), mg',
                w\<lparr>files := (files w)(manifestPath mg \<mapsto> text),
                  pending := pending w @ [(compressedPath e, logger mg)],
                  trace := trace w @ [Unlink (compressedPath e), WriteFile (manifestPath mg) text]\<rparr>))"
  using assms by (simp add: invalidateCache_def unlink_def Let_def saveManifest_ok)

lemma getCachedFile_invalidates:
  assumes "files w p = Some src"
    and "map_of (entries (manifest mg)) p = Some e"
    and "sourceHash e \<noteq> sha256_hex src \<or> stringify (settings e) \<noteq> stringify s"
    and "dir_exists w (dir_of (cacheDir mg))"
  shows "getCachedFile mg p s w =
           (let mg' = mg\<lparr>manifest := (manifest mg)\<lparr>entries := AList.delete p (entries (manifest mg))\<rparr>\<rparr>;
                text = stringify2 (manifest_json (manifest mg'))
            in (Inr None, mg',
                w\<lparr>files := (files w)(manifestPath mg \<mapsto> text),
                  pending := pending w @ [(compressedPath e, logger mg)],
                  trace := trace w @ [ReadFile p, Unlink (compressedPath e),
                                      WriteFile (manifestPath mg) text]\<rparr>))"
proof -
  let ?w1 = "w\<lparr>trace := trace w @ [ReadFile p]\<rparr>"
  have d: "dir_exists ?w1 (dir_of (cacheDir mg))" using assms(4) by simp
  show ?thesis
    using assms(1,2,3) invalidateCache_ok[OF assms(2) d]
    by (auto simp: getCachedFile_def readFileSync_def Let_def)
qed

lemma getCachedFile_missing_artifact:
  assumes "files w p = Some src"
    and "map_of (entries (manifest mg)) p = Some e"
    and "sourceHash e = sha256_hex src"
    and "stringify (settings e) = stringify s"
    and "files w (compressedPath e) = None"
    and "dir_exists w (dir_of (cacheDir mg))"
  shows "getCachedFile mg p s w =
           (let mg' = mg\<lparr>manifest := (manifest mg)\<lparr>entries := AList.delete p (entries (manifest mg))\<rparr>\<rparr>;
                text = stringify2 (manifest_json (manifest mg'))
            in (Inr None, mg',
                w\<lparr>files := (files w)(manifestPath mg \<mapsto> text),
                  trace := trace w @ [ReadFile p, Stat (compressedPath e),
                                      WriteFile (manifestPath mg) text]\<rparr>))"
  using assms
  by (simp add: getCachedFile_def readFileSync_def stat_def Let_def saveManifest_ok)

text \<open>
  Without the cache directory the write of the manifest throws: \<open>invalidateCache\<close>
  throws, and so does \<open>getCachedFile\<close> when it finds the artifact missing; the entry
  has been removed from the manifest that the manager holds, and no file is written.
\<close>

lemma invalidateCache_write_fails:
  assumes "map_of (entries (manifest mg)) p = Some e"
    and "\<not> dir_exists w (dir_of (cacheDir mg))"
  shows "invalidateCache mg p w =
           (let mg' = mg\<lparr>manifest := (manifest mg)\<lparr>entries := AList.delete p (entries (manifest mg))\<rparr>\<rparr>;
                text = stringify2 (manifest_json (manifest mg'))
            in (Inl (ENOENT ''open'' (manifestPath mg)), mg',
                w\<lparr>pending := pending w @ [(compressedPath e, logger mg)],
                  trace := trace w @ [Unlink (compressedPath e), WriteFile (manifestPath mg) text]\<rparr>))"
  using assms by (simp add: invalidateCache_def unlink_def Let_def saveManifest_fails)

lemma getCachedFile_invalidates_write_fails:
  assumes "files w p = Some src"
    and "map_of (entries (manifest mg)) p = Some e"
    and "sourceHash e \<noteq> sha256_hex src \<or> stringify (settings e) \<noteq> stringify s"
    and "\<not> dir_exists w (dir_of (cacheDir mg))"
  shows "getCachedFile mg p s w =
           (let mg' = mg\<lparr>manifest := (manifest mg)\<lparr>entries := AList.delete p (entries (manifest mg))\<rparr>\<rparr>;
                text = stringify2 (manifest_json (manifest mg'))
            in (Inr None, mg',
                w\<lparr>pending := pending w @ [(compressedPath e, logger mg)],
                  trace := trace w @ [ReadFile p, Unlink (compressedPath e),
                                      WriteFile (manifestPath mg) text]\<rparr>))"
proof -
  let ?w1 = "w\<lparr>trace := trace w @ [ReadFile p]\<rparr>"
  have d: "\<not> dir_exists ?w1 (dir_of (cacheDir mg))" using assms(4) by simp
  show ?thesis
    using assms(1,2,3) invalidateCache_write_fails[OF assms(2) d]
    by (auto simp: getCachedFile_def readFileSync_def Let_def)
qed

lemma getCachedFile_missing_artifact_write_fails:
  assumes "files w p = Some src"
    and "map_of (entries (manifest mg)) p = Some e"
    and "sourceHash e = sha256_hex src"
    and "stringify (settings e) = stringify s"
    and "files w (compressedPath e) = None"
    and "\<not> dir_exists w (dir_of (cacheDir mg))"
  shows "getCachedFile mg p s w =
           (let mg' = mg\<lparr>manifest := (manifest mg)\<lparr>entries := AList.delete p (entries (manifest mg))\<rparr>\<rparr>;
                text = stringify2 (manifest_json (manifest mg'))
            in (Inl (ENOENT ''open'' (manifestPath mg)), mg',
                w\<lparr>trace := trace w @ [ReadFile p, Stat (compressedPath e),
                                      WriteFile (manifestPath mg) text]\<rparr>))"
  using assms
  by (simp add: getCachedFile_def readFileSync_def stat_def Let_def saveManifest_fails)



text \<open>
  \<open>initialize\<close> creates the cache directory before it writes, so the write of the
  manifest succeeds: when loading fails, \<open>initialize\<close> returns normally, keeps the
  manifest that the manager holds and writes that manifest. For a manager fresh from
  the constructor this is the manifest with version \<open>1\<close> and no entries.
\<close>

lemma initialize_load_fails:
  assumes "files w (manifestPath mg) = None
         \<or> (\<exists>content. files w (manifestPath mg) = Some content \<and> JSON_parse content = None)"
  shows "initialize JSON_parse mg w =
           (Inr (), mg,
            (mkdirSync (cacheDir mg) w)
              \<lparr>files := (files w)(manifestPath mg \<mapsto> stringify2 (manifest_json (manifest mg))),
               trace := trace w @ [Mkdir (cacheDir mg), ReadFile (manifestPath mg),
                                   WriteFile (manifestPath mg) (stringify2 (manifest_json (manifest mg)))]\<rparr>)"
proof -
  let ?w1 = "mkdirSync (cacheDir mg) w"
  let ?w2 = "?w1\<lparr>trace := trace ?w1 @ [ReadFile (manifestPath mg)]\<rparr>"
  have f: "files ?w1 = files w" and t: "trace ?w1 = trace w @ [Mkdir (cacheDir mg)]"
    by (simp_all add: mkdirSync_def)
  have d: "dir_exists ?w2 (dir_of (cacheDir mg))"
    using mkdirSync_dir_exists[of "cacheDir mg" w] by simp
  obtain e where l: "loadManifest JSON_parse mg ?w1 = (Inl e, mg, ?w2)"
    using assms f by (auto simp: loadManifest_def readFileSync_def)
  show ?thesis
    using l saveManifest_ok[OF d] by (simp add: initialize_def Let_def f t)
qed

lemma initialize_fresh_manager:
  assumes "files w (manifestPath (new_manager d lg)) = None"
  shows "fst (initialize JSON_parse (new_manager d lg) w) = Inr ()
       \<and> manifest (fst (snd (initialize JSON_parse (new_manager d lg) w)))
           = \<lparr>version = ''1'', entries = []\<rparr>
       \<and> files (snd (snd (initialize JSON_parse (new_manager d lg) w))) (manifestPath (new_manager d lg))
           = Some (stringify2 (manifest_json \<lparr>version = ''1'', entries = []\<rparr>))"
  using initialize_load_fails[of w "new_manager d lg" JSON_parse] assms
  by (simp add: new_manager_def)


subsection \<open>The claims\<close>




text \<open>
  Claim C2 as it is stated fails. The stored settings \<^verbatim>\<open>{format, config}\<close> and the
  supplied settings \<^verbatim>\<open>{config, format}\<close> are structurally equal, the source is
  unchanged, and yet \<open>getCachedFile\<close> returns not-found, removes the entry and
  requests the \<^verbatim>\<open>unlink\<close> of the artifact, which is gone once that has taken place.
\<close>

theorem reordered_settings_are_invalidated:
  "deep_equal (settings ex_entry) ex_settings_reordered
   \<and> files ex_world ex_source = Some ''abc''
   \<and> map_of (entries (manifest ex_manager)) ex_source = Some ex_entry
   \<and> sourceHash ex_entry = sha256_hex ''abc''
   \<and> fst (getCachedFile ex_manager ex_source ex_settings_reordered ex_world) = Inr None
   \<and> entries (manifest (fst (snd (getCachedFile ex_manager ex_source ex_settings_reordered ex_world)))) = []
   \<and> files (settle (snd (snd (getCachedFile ex_manager ex_source ex_settings_reordered ex_world))))
        (compressedPath ex_entry) = None
   \<and> trace (snd (snd (getCachedFile ex_manager ex_source ex_settings_reordered ex_world))) ! 1
        = Unlink (compressedPath ex_entry)"
proof -
  have f: "files ex_world ex_source = Some ''abc''"
    by (simp add: ex_defs)
  have g: "getCachedFile ex_manager ex_source ex_settings_reordered ex_world =
             (Inr None, ex_manager\<lparr>manifest := \<lparr>version = ''1'', entries = []\<rparr>\<rparr>,
              ex_world\<lparr>files := (files ex_world)
                          (''/site/.cache/manifest.json'' \<mapsto>
                             stringify2 (manifest_json \<lparr>version = ''1'', entries = []\<rparr>)),
                       pending := pending ex_world @ [(ex_artifact, True)],
                       trace := trace ex_world @ [ReadFile ex_source, Unlink ex_artifact,
                                 WriteFile ''/site/.cache/manifest.json''
                                   (stringify2 (manifest_json \<lparr>version = ''1'', entries = []\<rparr>))]\<rparr>)"
    using getCachedFile_invalidates[OF f ex_lookup, of ex_settings_reordered] ex_stringify_differs
    by (simp add: Let_def ex_cache_dir_exists ex_delete_entry ex_manifestPath ex_compressedPath)
       (simp add: ex_manager_def)
  have t: "trace ex_world = []" "pending ex_world = []"
    by (simp_all add: ex_world_def)
  show ?thesis
    unfolding g using ex_deep_equal f ex_lookup ex_hash
    by (simp add: t ex_compressedPath settle_queued)
qed

text \<open>
  Claim C2, as amended. For an entry whose \<open>sourceHash\<close> matches the source,
  \<open>getCachedFile\<close> returns not-found with the effects of \<open>invalidateCache\<close> exactly when
  the \<^verbatim>\<open>JSON.stringify\<close> texts of the stored and the supplied settings differ.
\<close>

theorem settings_compared_by_serialisation:
  assumes "files w p = Some src"
    and "map_of (entries (manifest mg)) p = Some e"
    and "sourceHash e = sha256_hex src"
  shows "getCachedFile mg p s w =
           (Inr None, snd (invalidateCache mg p (snd (readFileSync p w))))
         \<longleftrightarrow> stringify (settings e) \<noteq> stringify s"
proof (cases "stringify (settings e) = stringify s")
  case False
  then show ?thesis
    using assms
    by (simp add: getCachedFile_def readFileSync_def Let_def split: prod.splits)
next
  case True
  have "trace (snd (snd (getCachedFile mg p s w))) ! Suc (length (trace w)) = Stat (compressedPath e)"
    using assms True
    by (auto simp: getCachedFile_def fs_defs Let_def nth_append split: option.splits)
  moreover have "trace (snd (snd (invalidateCache mg p (snd (readFileSync p w))))) ! Suc (length (trace w))
                   = Unlink (compressedPath e)"
    using assms
    by (auto simp: invalidateCache_def fs_defs Let_def nth_append split: option.splits)
  ultimately have "snd (snd (getCachedFile mg p s w)) \<noteq> snd (snd (invalidateCache mg p (snd (readFileSync p w))))"
    by auto
  then have "getCachedFile mg p s w \<noteq> (Inr None, snd (invalidateCache mg p (snd (readFileSync p w))))"
    by (metis snd_conv)
  with True show ?thesis by simp
qed

text \<open>
  On the sample data, with the keys of the supplied settings in the other order.
\<close>

theorem settings_compared_by_serialisation_witness:
  "files ex_world ex_source = Some ''abc''
   \<and> map_of (entries (manifest ex_manager)) ex_source = Some ex_entry
   \<and> sourceHash ex_entry = sha256_hex ''abc''
   \<and> stringify (settings ex_entry) \<noteq> stringify ex_settings_reordered
   \<and> getCachedFile ex_manager ex_source ex_settings_reordered ex_world =
        (Inr None, snd (invalidateCache ex_manager ex_source (snd (readFileSync ex_source ex_world))))"
proof -
  have f: "files ex_world ex_source = Some ''abc''"
    by (simp add: ex_defs)
  show ?thesis
    using settings_compared_by_serialisation[OF f ex_lookup ex_hash, of ex_settings_reordered]
      f ex_lookup ex_hash ex_stringify_differs
    by simp
qed

text \<open>
  Claim C3. When the source file cannot be read, \<open>getCachedFile\<close> and \<open>saveToCache\<close>
  both throw the read error; the manager is unchanged, and the only thing that happened
  in the world is the attempt to read, so no file has changed.
\<close>

theorem unreadable_source_propagates:
  assumes "files w originalPath = None"
  shows "getCachedFile mg originalPath s w =
           (Inl (ENOENT ''open'' originalPath), mg, w\<lparr>trace := trace w @ [ReadFile originalPath]\<rparr>)
       \<and> saveToCache mg originalPath b s w =
           (Inl (ENOENT ''open'' originalPath), mg, w\<lparr>trace := trace w @ [ReadFile originalPath]\<rparr>)"
  using assms by (simp add: getCachedFile_def saveToCache_def readFileSync_def)

text \<open>
  On the sample data, in a world without files.
\<close>

theorem unreadable_source_propagates_witness:
  "files ex_world_empty ex_source = None
   \<and> getCachedFile ex_manager ex_source ex_settings ex_world_empty =
       (Inl (ENOENT ''open'' ex_source), ex_manager,
        ex_world_empty\<lparr>trace := trace ex_world_empty @ [ReadFile ex_source]\<rparr>)
   \<and> saveToCache ex_manager ex_source ''ab'' ex_settings ex_world_empty =
       (Inl (ENOENT ''open'' ex_source), ex_manager,
        ex_world_empty\<lparr>trace := trace ex_world_empty @ [ReadFile ex_source]\<rparr>)"
proof -
  have f: "files ex_world_empty ex_source = None"
    by (simp add: ex_defs)
  show ?thesis
    using unreadable_source_propagates[OF f, of ex_manager ex_settings "''ab''"] f by simp
qed

text \<open>
  Claim C4 as it is stated fails when the cache directory is gone together with the
  artifact. The entry of the sample manager matches the source and the settings and no
  file exists at its \<open>compressedPath\<close>; \<open>getCachedFile\<close> removes the entry from the
  manifest that the manager holds, but the write of the manifest throws and so does
  \<open>getCachedFile\<close>: it does not return not-found, and no manifest file is written.
\<close>

theorem missing_artifact_without_cache_dir_throws:
  "files ex_world_no_cache_dir ex_source = Some ''abc''
   \<and> map_of (entries (manifest ex_manager)) ex_source = Some ex_entry
   \<and> sourceHash ex_entry = sha256_hex ''abc''
   \<and> stringify (settings ex_entry) = stringify ex_settings
   \<and> files ex_world_no_cache_dir (compressedPath ex_entry) = None
   \<and> getCachedFile ex_manager ex_source ex_settings ex_world_no_cache_dir =
       (Inl (ENOENT ''open'' ''/site/.cache/manifest.json''),
        ex_manager\<lparr>manifest := \<lparr>version = ''1'', entries = []\<rparr>\<rparr>,
        ex_world_no_cache_dir
          \<lparr>trace := [ReadFile ex_source, Stat ex_artifact,
                     WriteFile ''/site/.cache/manifest.json''
                       (stringify2 (manifest_json \<lparr>version = ''1'', entries = []\<rparr>))]\<rparr>)
   \<and> files ex_world_no_cache_dir ''/site/.cache/manifest.json'' = None"
proof -
  have f: "files ex_world_no_cache_dir ex_source = Some ''abc''"
    by (simp add: ex_defs)
  have s: "stringify (settings ex_entry) = stringify ex_settings"
    by (simp add: ex_entry_def)
  have a: "files ex_world_no_cache_dir (compressedPath ex_entry) = None"
    by (simp add: ex_defs)
  have d: "\<not> dir_exists ex_world_no_cache_dir (dir_of (cacheDir ex_manager))"
    by (simp add: ex_cache_dir_exists)
  have t: "trace ex_world_no_cache_dir = []"
    by (simp add: ex_defs)
  have m: "files ex_world_no_cache_dir ''/site/.cache/manifest.json'' = None"
    by (simp add: ex_defs)
  show ?thesis
    using getCachedFile_missing_artifact_write_fails[OF f ex_lookup ex_hash s a d] f ex_lookup ex_hash s a m
    by (simp add: Let_def ex_delete_entry t ex_manifestPath ex_compressedPath)
qed

text \<open>
  Claim C4, as amended. For an entry whose hash and settings match, when no file exists
  at its \<open>compressedPath\<close> and the cache directory exists, \<open>getCachedFile\<close> returns
  not-found without throwing, the entry is removed, the manifest is written, and the
  calls made are the read, the \<^verbatim>\<open>stat\<close> and the write of the manifest: no
  \<^verbatim>\<open>unlink\<close>. The cache directory exists after \<open>initialize\<close>
  (\<open>mkdirSync_dir_exists\<close>).
\<close>

theorem missing_artifact_self_heals:
  assumes "files w p = Some src"
    and "map_of (entries (manifest mg)) p = Some e"
    and "sourceHash e = sha256_hex src"
    and "stringify (settings e) = stringify s"
    and "files w (compressedPath e) = None"
    and "dir_exists w (dir_of (cacheDir mg))"
  shows "let mg' = mg\<lparr>manifest := (manifest mg)\<lparr>entries := AList.delete p (entries (manifest mg))\<rparr>\<rparr>;
             text = stringify2 (manifest_json (manifest mg'))
         in getCachedFile mg p s w =
              (Inr None, mg',
               w\<lparr>files := (files w)(manifestPath mg \<mapsto> text),
                 trace := trace w @ [ReadFile p, Stat (compressedPath e),
                                     WriteFile (manifestPath mg) text]\<rparr>)
            \<and> map_of (entries (manifest mg')) p = None"
  using getCachedFile_missing_artifact[OF assms]
  by (simp add: Let_def map_of_delete_same)

text \<open>
  On the sample data, with the artifact gone: the manifest written has no entries.
\<close>

theorem missing_artifact_self_heals_witness:
  "files ex_world_no_artifact ex_source = Some ''abc''
   \<and> map_of (entries (manifest ex_manager)) ex_source = Some ex_entry
   \<and> sourceHash ex_entry = sha256_hex ''abc''
   \<and> stringify (settings ex_entry) = stringify ex_settings
   \<and> files ex_world_no_artifact (compressedPath ex_entry) = None
   \<and> dir_exists ex_world_no_artifact (dir_of (cacheDir ex_manager))
   \<and> getCachedFile ex_manager ex_source ex_settings ex_world_no_artifact =
       (Inr None, ex_manager\<lparr>manifest := \<lparr>version = ''1'', entries = []\<rparr>\<rparr>,
        ex_world_no_artifact
          \<lparr>files := (files ex_world_no_artifact)
                      (''/site/.cache/manifest.json'' \<mapsto>
                         stringify2 (manifest_json \<lparr>version = ''1'', entries = []\<rparr>)),
           trace := [ReadFile ex_source, Stat ex_artifact,
                     WriteFile ''/site/.cache/manifest.json''
                       (stringify2 (manifest_json \<lparr>version = ''1'', entries = []\<rparr>))]\<rparr>)"
proof -
  have f: "files ex_world_no_artifact ex_source = Some ''abc''"
    by (simp add: ex_defs)
  have s: "stringify (settings ex_entry) = stringify ex_settings"
    by (simp add: ex_entry_def)
  have a: "files ex_world_no_artifact (compressedPath ex_entry) = None"
    by (simp add: ex_defs)
  have d: "dir_exists ex_world_no_artifact (dir_of (cacheDir ex_manager))"
    by (simp add: ex_cache_dir_exists)
  have t: "trace ex_world_no_artifact = []"
    by (simp add: ex_defs)
  show ?thesis
    using missing_artifact_self_heals[OF f ex_lookup ex_hash s a d] f ex_lookup ex_hash s a d
    by (simp add: Let_def ex_delete_entry t ex_manifestPath ex_compressedPath)
qed

text \<open>
  Claim C5 as it is stated fails. The source has been emptied, so the stored hash
  differs from the hash of the source: \<open>getCachedFile\<close> returns not-found, the entry is
  removed and the manifest is written, but in the world that the call leaves the
  previous artifact file still exists with its two bytes. Its deletion has been
  requested and is pending. And when the cache directory is gone, \<open>getCachedFile\<close>
  returns not-found with the entry removed, but no manifest file has been written.
\<close>

theorem stale_artifact_outlives_call:
  "files ex_world_edited ex_source = Some []
   \<and> map_of (entries (manifest ex_manager)) ex_source = Some ex_entry
   \<and> sourceHash ex_entry \<noteq> sha256_hex []
   \<and> fst (getCachedFile ex_manager ex_source ex_settings ex_world_edited) = Inr None
   \<and> entries (manifest (fst (snd (getCachedFile ex_manager ex_source ex_settings ex_world_edited)))) = []
   \<and> files (snd (snd (getCachedFile ex_manager ex_source ex_settings ex_world_edited)))
        ''/site/.cache/manifest.json''
        = Some (stringify2 (manifest_json \<lparr>version = ''1'', entries = []\<rparr>))
   \<and> files (snd (snd (getCachedFile ex_manager ex_source ex_settings ex_world_edited)))
        (compressedPath ex_entry) = Some ''ab''
   \<and> pending (snd (snd (getCachedFile ex_manager ex_source ex_settings ex_world_edited)))
        = [(compressedPath ex_entry, True)]
   \<and> files ex_world_edited_no_cache_dir ex_source = Some []
   \<and> fst (getCachedFile ex_manager ex_source ex_settings ex_world_edited_no_cache_dir) = Inr None
   \<and> entries (manifest (fst (snd (getCachedFile ex_manager ex_source ex_settings
                                     ex_world_edited_no_cache_dir)))) = []
   \<and> files (snd (snd (getCachedFile ex_manager ex_source ex_settings ex_world_edited_no_cache_dir)))
        ''/site/.cache/manifest.json'' = None"
proof -
  have f: "files ex_world_edited ex_source = Some []"
    by (simp add: ex_defs)
  have h: "sourceHash ex_entry \<noteq> sha256_hex []"
    by (simp add: ex_entry_def sha256_hex_empty digest_abc_def digest_empty_def)
  have d: "dir_exists ex_world_edited (dir_of (cacheDir ex_manager))"
    by (simp add: ex_cache_dir_exists)
  have a: "files ex_world_edited ex_artifact = Some ''ab''" "pending ex_world_edited = []"
    "logger ex_manager"
    by (simp_all add: ex_defs)
  have f': "files ex_world_edited_no_cache_dir ex_source = Some []"
    by (simp add: ex_defs)
  have d': "\<not> dir_exists ex_world_edited_no_cache_dir (dir_of (cacheDir ex_manager))"
    by (simp add: ex_cache_dir_exists)
  have m': "files ex_world_edited_no_cache_dir ''/site/.cache/manifest.json'' = None"
    by (simp add: ex_defs)
  show ?thesis
    using getCachedFile_invalidates[OF f ex_lookup _ d, of ex_settings]
          getCachedFile_invalidates_write_fails[OF f' ex_lookup _ d', of ex_settings]
          f f' ex_lookup h a m' ex_artifact_not_manifest
    by (simp add: Let_def ex_delete_entry ex_manifestPath ex_compressedPath)
qed

text \<open>
  Claim C5, as amended. For an entry whose stored \<open>sourceHash\<close> differs from the hash
  of the source, when the cache directory exists, \<open>getCachedFile\<close> returns not-found
  and invalidates the entry: the entry is removed from the manifest, the manifest is
  written, and the deletion of the artifact file at the entry's \<open>compressedPath\<close> is
  requested, before the manifest is written, and not waited for. Once the pending
  deletions have taken place no file exists at \<open>compressedPath\<close>, for every
  \<open>compressedPath\<close> but the manifest file's own path, which no path that \<open>saveToCache\<close>
  derives is (\<open>artifact_path_not_manifest\<close>). Whether the artifact still exists when
  the call returns is not stated.
\<close>

theorem stale_hash_invalidates:
  assumes "files w p = Some src"
    and "map_of (entries (manifest mg)) p = Some e"
    and "sourceHash e \<noteq> sha256_hex src"
    and "dir_exists w (dir_of (cacheDir mg))"
  shows "let mg' = mg\<lparr>manifest := (manifest mg)\<lparr>entries := AList.delete p (entries (manifest mg))\<rparr>\<rparr>;
             text = stringify2 (manifest_json (manifest mg'));
             r = getCachedFile mg p s w
         in fst r = Inr None \<and> fst (snd r) = mg'
            \<and> map_of (entries (manifest mg')) p = None
            \<and> files (snd (snd r)) (manifestPath mg) = Some text
            \<and> trace (snd (snd r)) =
                 trace w @ [ReadFile p, Unlink (compressedPath e), WriteFile (manifestPath mg) text]
            \<and> (compressedPath e \<noteq> manifestPath mg \<longrightarrow>
                 files (settle (snd (snd r))) (compressedPath e) = None)"
proof -
  have "sourceHash e \<noteq> sha256_hex src \<or> stringify (settings e) \<noteq> stringify s"
    using assms(3) by simp
  from getCachedFile_invalidates[OF assms(1,2) this assms(4)]
  show ?thesis
    by (simp add: Let_def map_of_delete_same settle_queued)
qed

text \<open>
  On the sample data, with the source emptied: the artifact that was there is gone
  once the pending deletion has taken place.
\<close>

theorem stale_hash_invalidates_witness:
  "files ex_world_edited ex_source = Some []
   \<and> map_of (entries (manifest ex_manager)) ex_source = Some ex_entry
   \<and> sourceHash ex_entry \<noteq> sha256_hex []
   \<and> dir_exists ex_world_edited (dir_of (cacheDir ex_manager))
   \<and> compressedPath ex_entry \<noteq> manifestPath ex_manager
   \<and> files ex_world_edited (compressedPath ex_entry) = Some ''ab''
   \<and> fst (getCachedFile ex_manager ex_source ex_settings ex_world_edited) = Inr None
   \<and> entries (manifest (fst (snd (getCachedFile ex_manager ex_source ex_settings ex_world_edited)))) = []
   \<and> files (snd (snd (getCachedFile ex_manager ex_source ex_settings ex_world_edited)))
        ''/site/.cache/manifest.json''
        = Some (stringify2 (manifest_json \<lparr>version = ''1'', entries = []\<rparr>))
   \<and> trace (snd (snd (getCachedFile ex_manager ex_source ex_settings ex_world_edited)))
        = [ReadFile ex_source, Unlink ex_artifact,
           WriteFile ''/site/.cache/manifest.json''
             (stringify2 (manifest_json \<lparr>version = ''1'', entries = []\<rparr>))]
   \<and> files (settle (snd (snd (getCachedFile ex_manager ex_source ex_settings ex_world_edited))))
        (compressedPath ex_entry) = None"
proof -
  have f: "files ex_world_edited ex_source = Some []"
    by (simp add: ex_defs)
  have h: "sourceHash ex_entry \<noteq> sha256_hex []"
    by (simp add: ex_entry_def sha256_hex_empty digest_abc_def digest_empty_def)
  have d: "dir_exists ex_world_edited (dir_of (cacheDir ex_manager))"
    by (simp add: ex_cache_dir_exists)
  have c: "compressedPath ex_entry \<noteq> manifestPath ex_manager"
    by (simp add: ex_manifestPath ex_compressedPath ex_artifact_not_manifest)
  have a: "files ex_world_edited (compressedPath ex_entry) = Some ''ab''"
    by (simp add: ex_defs)
  have t: "trace ex_world_edited = []"
    by (simp add: ex_defs)
  note th = stale_hash_invalidates[OF f ex_lookup h d, of ex_settings, unfolded Let_def]
  have r1: "fst (getCachedFile ex_manager ex_source ex_settings ex_world_edited) = Inr None"
    using th by blast
  have r2: "entries (manifest (fst (snd (getCachedFile ex_manager ex_source ex_settings ex_world_edited)))) = []"
    using th by (simp add: ex_delete_entry)
  have r3: "files (snd (snd (getCachedFile ex_manager ex_source ex_settings ex_world_edited)))
        ''/site/.cache/manifest.json''
        = Some (stringify2 (manifest_json \<lparr>version = ''1'', entries = []\<rparr>))"
    using th by (simp add: ex_delete_entry ex_manifestPath)
  have r4: "trace (snd (snd (getCachedFile ex_manager ex_source ex_settings ex_world_edited)))
        = [ReadFile ex_source, Unlink ex_artifact,
           WriteFile ''/site/.cache/manifest.json''
             (stringify2 (manifest_json \<lparr>version = ''1'', entries = []\<rparr>))]"
    using th by (simp add: ex_delete_entry ex_manifestPath ex_compressedPath t)
  have r5: "files (settle (snd (snd (getCachedFile ex_manager ex_source ex_settings ex_world_edited))))
        (compressedPath ex_entry) = None"
    using th c by blast
  show ?thesis
    using f ex_lookup h d c a r1 r2 r3 r4 r5 by blast
qed



text \<open>
  Claim C7 at a manager that is not fresh. The sample manager holds one entry and the
  cache directory has no manifest file: whatever \<^verbatim>\<open>JSON.parse\<close> does, loading fails
  and \<open>initialize\<close> returns normally, but the manager still holds the entry and the
  manifest file written holds that entry; it is not the empty manifest that the claim
  and the message of line 58 speak of. The same happens when the cache directory
  itself is missing and \<open>initialize\<close> creates it. (For a manager fresh from the
  constructor the manifest kept and written is the empty one:
  \<open>initialize_fresh_manager\<close>.)
\<close>

theorem initialize_persists_held_entries:
  "files ex_world (manifestPath ex_manager) = None
   \<and> entries (manifest ex_manager) = [(ex_source, ex_entry)]
   \<and> (\<forall>JSON_parse.
         fst (loadManifest JSON_parse ex_manager (mkdirSync (cacheDir ex_manager) ex_world))
           = Inl (ENOENT ''open'' ''/site/.cache/manifest.json'')
         \<and> fst (initialize JSON_parse ex_manager ex_world) = Inr ()
         \<and> manifest (fst (snd (initialize JSON_parse ex_manager ex_world)))
             = \<lparr>version = ''1'', entries = [(ex_source, ex_entry)]\<rparr>
         \<and> files (snd (snd (initialize JSON_parse ex_manager ex_world))) ''/site/.cache/manifest.json''
             = Some (stringify2 (manifest_json \<lparr>version = ''1'', entries = [(ex_source, ex_entry)]\<rparr>)))
   \<and> stringify2 (manifest_json \<lparr>version = ''1'', entries = [(ex_source, ex_entry)]\<rparr>)
       \<noteq> stringify2 (manifest_json \<lparr>version = ''1'', entries = []\<rparr>)
   \<and> files ex_world_no_cache_dir (manifestPath ex_manager) = None
   \<and> (\<forall>JSON_parse.
         fst (initialize JSON_parse ex_manager ex_world_no_cache_dir) = Inr ()
         \<and> manifest (fst (snd (initialize JSON_parse ex_manager ex_world_no_cache_dir)))
             = \<lparr>version = ''1'', entries = [(ex_source, ex_entry)]\<rparr>
         \<and> files (snd (snd (initialize JSON_parse ex_manager ex_world_no_cache_dir)))
               ''/site/.cache/manifest.json''
             = Some (stringify2 (manifest_json \<lparr>version = ''1'', entries = [(ex_source, ex_entry)]\<rparr>)))"
proof -
  have f: "files ex_world (manifestPath ex_manager) = None"
    by (simp add: ex_manifestPath) (simp add: ex_defs)
  have f': "files ex_world_no_cache_dir (manifestPath ex_manager) = None"
    by (simp add: ex_manifestPath) (simp add: ex_defs)
  have m: "manifest ex_manager = \<lparr>version = ''1'', entries = [(ex_source, ex_entry)]\<rparr>"
    by (simp add: ex_manager_def)
  have i: "initialize JSON_parse ex_manager ex_world =
             (Inr (), ex_manager,
              (mkdirSync (cacheDir ex_manager) ex_world)
                \<lparr>files := (files ex_world)(manifestPath ex_manager \<mapsto>
                                   stringify2 (manifest_json (manifest ex_manager))),
                 trace := trace ex_world @ [Mkdir (cacheDir ex_manager), ReadFile (manifestPath ex_manager),
                                  WriteFile (manifestPath ex_manager)
                                    (stringify2 (manifest_json (manifest ex_manager)))]\<rparr>)"
    for JSON_parse
    using f by (intro initialize_load_fails) simp
  have i': "initialize JSON_parse ex_manager ex_world_no_cache_dir =
             (Inr (), ex_manager,
              (mkdirSync (cacheDir ex_manager) ex_world_no_cache_dir)
                \<lparr>files := (files ex_world_no_cache_dir)(manifestPath ex_manager \<mapsto>
                                   stringify2 (manifest_json (manifest ex_manager))),
                 trace := trace ex_world_no_cache_dir
                            @ [Mkdir (cacheDir ex_manager), ReadFile (manifestPath ex_manager),
                               WriteFile (manifestPath ex_manager)
                                 (stringify2 (manifest_json (manifest ex_manager)))]\<rparr>)"
    for JSON_parse
    using f' by (intro initialize_load_fails) simp
  have l: "fst (loadManifest JSON_parse ex_manager (mkdirSync (cacheDir ex_manager) ex_world))
           = Inl (ENOENT ''open'' ''/site/.cache/manifest.json'')" for JSON_parse
    using f by (simp add: loadManifest_def readFileSync_def mkdirSync_def ex_manifestPath)
  show ?thesis
    using f f' ex_manifest_texts_differ i i' l
    by (simp add: m ex_manifestPath)
qed

text \<open>
  Claim C8 as it is stated fails when the cache directory is gone. For the path with
  an entry of the sample manager, \<open>invalidateCache\<close> removes the entry from the manifest
  that the manager holds and requests the deletion of the artifact, but the write of
  the manifest throws and so does \<open>invalidateCache\<close>: the manifest is not persisted.
\<close>

theorem invalidateCache_without_cache_dir_throws:
  "map_of (entries (manifest ex_manager)) ex_source = Some ex_entry
   \<and> invalidateCache ex_manager ex_source ex_world_no_cache_dir =
       (Inl (ENOENT ''open'' ''/site/.cache/manifest.json''),
        ex_manager\<lparr>manifest := \<lparr>version = ''1'', entries = []\<rparr>\<rparr>,
        ex_world_no_cache_dir
          \<lparr>pending := [(ex_artifact, True)],
           trace := [Unlink ex_artifact,
                     WriteFile ''/site/.cache/manifest.json''
                       (stringify2 (manifest_json \<lparr>version = ''1'', entries = []\<rparr>))]\<rparr>)
   \<and> files ex_world_no_cache_dir ''/site/.cache/manifest.json'' = None"
proof -
  have d: "\<not> dir_exists ex_world_no_cache_dir (dir_of (cacheDir ex_manager))"
    by (simp add: ex_cache_dir_exists)
  have t: "trace ex_world_no_cache_dir = []" "pending ex_world_no_cache_dir = []" "logger ex_manager"
    by (simp_all add: ex_defs)
  have m: "files ex_world_no_cache_dir ''/site/.cache/manifest.json'' = None"
    by (simp add: ex_defs)
  show ?thesis
    using invalidateCache_write_fails[OF ex_lookup d] ex_lookup m
    by (simp add: Let_def ex_delete_entry t ex_manifestPath ex_compressedPath)
qed

text \<open>
  Claim C8, as amended. For a path with an entry, when the cache directory exists,
  \<open>invalidateCache\<close> returns normally with the entry removed and the manifest written,
  whatever becomes of the deletion of the artifact, which is requested before the
  manifest is written and not waited for. When there is no file to delete (and no
  other deletion is pending), the world that the call leaves is the world before with
  the new manifest and the \<^verbatim>\<open>unlink\<close> pending; when the \<^verbatim>\<open>unlink\<close> then fails, the
  failure goes to \<^verbatim>\<open>logger.error\<close> (if there is a logger) and changes nothing else.
\<close>

theorem invalidateCache_survives_unlink_failure:
  assumes "map_of (entries (manifest mg)) p = Some e"
    and "dir_exists w (dir_of (cacheDir mg))"
  shows "let mg' = mg\<lparr>manifest := (manifest mg)\<lparr>entries := AList.delete p (entries (manifest mg))\<rparr>\<rparr>;
             text = stringify2 (manifest_json (manifest mg'));
             r = invalidateCache mg p w
         in fst r = Inr () \<and> fst (snd r) = mg'
            \<and> map_of (entries (manifest mg')) p = None
            \<and> files (snd (snd r)) (manifestPath mg) = Some text
            \<and> trace (snd (snd r)) =
                 trace w @ [Unlink (compressedPath e), WriteFile (manifestPath mg) text]
            \<and> (files w (compressedPath e) = None \<and> compressedPath e \<noteq> manifestPath mg
                 \<and> pending w = [] \<longrightarrow>
                 snd (snd r) =
                   w\<lparr>files := (files w)(manifestPath mg \<mapsto> text),
                     pending := [(compressedPath e, logger mg)],
                     trace := trace w @ [Unlink (compressedPath e),
                                         WriteFile (manifestPath mg) text]\<rparr>
                 \<and> settle (snd (snd r)) =
                   w\<lparr>files := (files w)(manifestPath mg \<mapsto> text),
                     errlog := (if logger mg
                                then errlog w @ [''Failed to remove invalid cached file: ''
                                                 @ err_text (ENOENT ''unlink'' (compressedPath e))]
                                else errlog w),
                     trace := trace w @ [Unlink (compressedPath e),
                                         WriteFile (manifestPath mg) text]\<rparr>)"
  using invalidateCache_ok[OF assms]
  by (cases w) (auto simp: Let_def map_of_delete_same settle_def unlink_callback_def)

text \<open>
  On the sample data, with the artifact gone: the entry is removed and the manifest is
  written, the \<^verbatim>\<open>unlink\<close> fails when it takes place, and the failure is logged.
\<close>

theorem invalidateCache_survives_unlink_failure_witness:
  "map_of (entries (manifest ex_manager)) ex_source = Some ex_entry
   \<and> dir_exists ex_world_no_artifact (dir_of (cacheDir ex_manager))
   \<and> files ex_world_no_artifact (compressedPath ex_entry) = None
   \<and> compressedPath ex_entry \<noteq> manifestPath ex_manager
   \<and> pending ex_world_no_artifact = []
   \<and> invalidateCache ex_manager ex_source ex_world_no_artifact =
       (Inr (), ex_manager\<lparr>manifest := \<lparr>version = ''1'', entries = []\<rparr>\<rparr>,
        ex_world_no_artifact
          \<lparr>files := (files ex_world_no_artifact)
                      (''/site/.cache/manifest.json'' \<mapsto>
                         stringify2 (manifest_json \<lparr>version = ''1'', entries = []\<rparr>)),
           pending := [(ex_artifact, True)],
           trace := [Unlink ex_artifact,
                     WriteFile ''/site/.cache/manifest.json''
                       (stringify2 (manifest_json \<lparr>version = ''1'', entries = []\<rparr>))]\<rparr>)
   \<and> settle (snd (snd (invalidateCache ex_manager ex_source ex_world_no_artifact))) =
        ex_world_no_artifact
          \<lparr>files := (files ex_world_no_artifact)
                      (''/site/.cache/manifest.json'' \<mapsto>
                         stringify2 (manifest_json \<lparr>version = ''1'', entries = []\<rparr>)),
           errlog := [''Failed to remove invalid cached file: ''
                        @ err_text (ENOENT ''unlink'' ex_artifact)],
           trace := [Unlink ex_artifact,
                     WriteFile ''/site/.cache/manifest.json''
                       (stringify2 (manifest_json \<lparr>version = ''1'', entries = []\<rparr>))]\<rparr>"
proof -
  have a: "files ex_world_no_artifact (compressedPath ex_entry) = None"
    by (simp add: ex_defs)
  have d: "dir_exists ex_world_no_artifact (dir_of (cacheDir ex_manager))"
    by (simp add: ex_cache_dir_exists)
  have c: "compressedPath ex_entry \<noteq> manifestPath ex_manager"
    by (simp add: ex_manifestPath ex_compressedPath ex_artifact_not_manifest)
  have t: "trace ex_world_no_artifact = []" "errlog ex_world_no_artifact = []" "logger ex_manager"
    by (simp_all add: ex_defs)
  have p: "pending ex_world_no_artifact = []"
    by (simp add: ex_defs)
  note th = invalidateCache_survives_unlink_failure[OF ex_lookup d, unfolded Let_def]
  have r0: "fst (invalidateCache ex_manager ex_source ex_world_no_artifact) = Inr ()"
    "fst (snd (invalidateCache ex_manager ex_source ex_world_no_artifact))
       = ex_manager\<lparr>manifest := \<lparr>version = ''1'', entries = []\<rparr>\<rparr>"
    using th by (simp_all add: ex_delete_entry)
  have "snd (snd (invalidateCache ex_manager ex_source ex_world_no_artifact)) =
          ex_world_no_artifact
            \<lparr>files := (files ex_world_no_artifact)(manifestPath ex_manager \<mapsto>
                stringify2 (manifest_json (manifest (ex_manager\<lparr>manifest := (manifest ex_manager)
                   \<lparr>entries := AList.delete ex_source (entries (manifest ex_manager))\<rparr>\<rparr>)))),
              pending := [(compressedPath ex_entry, logger ex_manager)],
              trace := trace ex_world_no_artifact @ [Unlink (compressedPath ex_entry),
                         WriteFile (manifestPath ex_manager)
                           (stringify2 (manifest_json (manifest (ex_manager\<lparr>manifest := (manifest ex_manager)
                   \<lparr>entries := AList.delete ex_source (entries (manifest ex_manager))\<rparr>\<rparr>))))]\<rparr>"
    using th a c p by blast
  then have r1': "snd (snd (invalidateCache ex_manager ex_source ex_world_no_artifact)) =
        ex_world_no_artifact
          \<lparr>files := (files ex_world_no_artifact)
                      (''/site/.cache/manifest.json'' \<mapsto>
                         stringify2 (manifest_json \<lparr>version = ''1'', entries = []\<rparr>)),
           pending := [(ex_artifact, True)],
           trace := [Unlink ex_artifact,
                     WriteFile ''/site/.cache/manifest.json''
                       (stringify2 (manifest_json \<lparr>version = ''1'', entries = []\<rparr>))]\<rparr>"
    by (simp add: ex_delete_entry t ex_manifestPath ex_compressedPath)
  have r1: "invalidateCache ex_manager ex_source ex_world_no_artifact =
       (Inr (), ex_manager\<lparr>manifest := \<lparr>version = ''1'', entries = []\<rparr>\<rparr>,
        ex_world_no_artifact
          \<lparr>files := (files ex_world_no_artifact)
                      (''/site/.cache/manifest.json'' \<mapsto>
                         stringify2 (manifest_json \<lparr>version = ''1'', entries = []\<rparr>)),
           pending := [(ex_artifact, True)],
           trace := [Unlink ex_artifact,
                     WriteFile ''/site/.cache/manifest.json''
                       (stringify2 (manifest_json \<lparr>version = ''1'', entries = []\<rparr>))]\<rparr>)"
    using r0 r1' by (simp add: prod_eq_iff)
  have "settle (snd (snd (invalidateCache ex_manager ex_source ex_world_no_artifact))) =
          ex_world_no_artifact
            \<lparr>files := (files ex_world_no_artifact)(manifestPath ex_manager \<mapsto>
                stringify2 (manifest_json (manifest (ex_manager\<lparr>manifest := (manifest ex_manager)
                   \<lparr>entries := AList.delete ex_source (entries (manifest ex_manager))\<rparr>\<rparr>)))),
              errlog := (if logger ex_manager
                         then errlog ex_world_no_artifact @ [''Failed to remove invalid cached file: ''
                                @ err_text (ENOENT ''unlink'' (compressedPath ex_entry))]
                         else errlog ex_world_no_artifact),
              trace := trace ex_world_no_artifact @ [Unlink (compressedPath ex_entry),
                         WriteFile (manifestPath ex_manager)
                           (stringify2 (manifest_json (manifest (ex_manager\<lparr>manifest := (manifest ex_manager)
                   \<lparr>entries := AList.delete ex_source (entries (manifest ex_manager))\<rparr>\<rparr>))))]\<rparr>"
    using th a c p by blast
  then have r2: "settle (snd (snd (invalidateCache ex_manager ex_source ex_world_no_artifact))) =
        ex_world_no_artifact
          \<lparr>files := (files ex_world_no_artifact)
                      (''/site/.cache/manifest.json'' \<mapsto>
                         stringify2 (manifest_json \<lparr>version = ''1'', entries = []\<rparr>)),
           errlog := [''Failed to remove invalid cached file: ''
                        @ err_text (ENOENT ''unlink'' ex_artifact)],
           trace := [Unlink ex_artifact,
                     WriteFile ''/site/.cache/manifest.json''
                       (stringify2 (manifest_json \<lparr>version = ''1'', entries = []\<rparr>))]\<rparr>"
    by (simp add: ex_delete_entry t ex_manifestPath ex_compressedPath)
  show ?thesis
    using ex_lookup d a c p r1 r2 by blast
qed

text \<open>
  Claim C9 at a source file without an extension. For \<^verbatim>\<open>/site/dist/LICENSE\<close> the
  part that \<^verbatim>\<open>split('.').pop()\<close> returns is the whole path, so the derived name is
  the hash, a dot and the whole path, and the file that \<open>saveToCache\<close> writes lies
  three directories below the cache directory instead of directly inside it. Those
  directories do not exist, so the write throws and no entry is stored.
\<close>

theorem extensionless_source_leaves_cache_dir:
  "files ex_world_license ex_license = Some ''abc''
   \<and> ext_of ex_license = ''/site/dist/LICENSE''
   \<and> cachedFileName (sha256_hex ''abc'') ex_license = digest_abc @ ''./site/dist/LICENSE''
   \<and> trace (snd (snd (saveToCache (new_manager ex_dir True) ex_license ''ab'' ex_settings
                         ex_world_license))) ! 1
       = WriteFile (''/site/.cache/'' @ digest_abc @ ''./site/dist/LICENSE'') ''ab''
   \<and> segments (''/site/.cache/'' @ digest_abc @ ''./site/dist/LICENSE'')
       = [''site'', ''.cache'', digest_abc @ ''.'', ''site'', ''dist'', ''LICENSE'']
   \<and> dir_exists ex_world_license (dir_of ex_dir)
   \<and> fst (saveToCache (new_manager ex_dir True) ex_license ''ab'' ex_settings ex_world_license)
       = Inl (ENOENT ''open'' (''/site/.cache/'' @ digest_abc @ ''./site/dist/LICENSE''))
   \<and> entries (manifest (fst (snd (saveToCache (new_manager ex_dir True) ex_license ''ab''
                                     ex_settings ex_world_license)))) = []"
proof -
  let ?path = "''/site/.cache/'' @ digest_abc @ ''./site/dist/LICENSE''"
  have f: "files ex_world_license ex_license = Some ''abc''"
    by (simp add: ex_defs)
  have e: "ext_of ex_license = ''/site/dist/LICENSE''"
    by (simp add: ext_of_def ex_license_def)
  have n: "cachedFileName (sha256_hex ''abc'') ex_license = digest_abc @ ''./site/dist/LICENSE''"
    by (simp add: cachedFileName_def e sha256_hex_abc)
  have p: "path_join ex_dir (digest_abc @ ''./site/dist/LICENSE'') = ?path"
    by (simp add: ex_dir_def digest_abc_def path_defs)
  have sg: "segments ?path = [''site'', ''.cache'', digest_abc @ ''.'', ''site'', ''dist'', ''LICENSE'']"
    by (simp add: segments_def digest_abc_def)
  have "parent_of ?path = (True, [''site'', ''.cache'', digest_abc @ ''.'', ''site'', ''dist''])"
    by (simp add: dir_defs digest_abc_def norm_step_def)
  then have d: "\<not> dir_exists ex_world_license (parent_of ?path)"
    by (simp add: dir_exists_def ex_world_license_def ex_dirs_def)
  have s: "saveToCache (new_manager ex_dir True) ex_license ''ab'' ex_settings ex_world_license =
             (Inl (ENOENT ''open'' ?path), new_manager ex_dir True,
              ex_world_license\<lparr>trace := trace ex_world_license
                 @ [ReadFile ex_license, WriteFile ?path ''ab'']\<rparr>)"
    using f d
    by (simp add: saveToCache_def readFileSync_def writeFileSync_def Let_def n p)
  have t: "trace ex_world_license = []"
    by (simp add: ex_world_license_def)
  have m: "entries (manifest (new_manager ex_dir True)) = []"
    by (simp add: new_manager_def)
  show ?thesis
    using f e n sg
    by (simp add: s t m ex_cache_dir_exists)
qed

text \<open>
  Claim C10. For a path without an entry, \<open>invalidateCache\<close> throws a \<^verbatim>\<open>TypeError\<close>
  and leaves the manager and the world exactly as they were: no file-system call is made.
\<close>

theorem invalidateCache_without_entry_throws:
  assumes "map_of (entries (manifest mg)) originalPath = None"
  shows "invalidateCache mg originalPath w = (Inl (TypeError undefined_compressedPath), mg, w)"
  using assms by (simp add: invalidateCache_def)

text \<open>
  On the sample data: a fresh manager has no entry to invalidate.
\<close>

theorem invalidateCache_without_entry_throws_witness:
  "map_of (entries (manifest (new_manager ex_dir True))) ex_source = None
   \<and> invalidateCache (new_manager ex_dir True) ex_source ex_world =
       (Inl (TypeError undefined_compressedPath), new_manager ex_dir True, ex_world)"
proof -
  have n: "map_of (entries (manifest (new_manager ex_dir True))) ex_source = None"
    by (simp add: new_manager_def)
  show ?thesis
    using invalidateCache_without_entry_throws[OF n, of ex_world] n by simp
qed

end
